theory Spec2Isabelle
  imports Complex_Main
begin

section \<open>Numbers, arrays and objects of the source\<close>

text \<open>
  The TypeScript sources compute with \<open>number\<close>. Every \<open>number\<close> that carries a
  measurement (an axis value, a coordinate, a coefficient) is modelled as a \<open>real\<close>, and
  the arithmetic on it is exact, with one exception: the smoothing loop is modelled a
  second time with the rounding of IEEE doubles (\<open>calculateSmoothedValue_double\<close>), for
  the statement that depends on it. \<open>NaN\<close> and the infinities are not values of the
  model. The history index is only ever assigned \<open>-1\<close>, an array length minus one, or
  itself plus or minus one, and is modelled as an \<open>int\<close>.
\<close>

type_synonym vec3 = "real \<times> real \<times> real"

text \<open>Failures that JavaScript raises at run time.\<close>

datatype js_error = TypeError

text \<open>
  \<open>xs[i]\<close>: reading an array outside \<open>0 \<dots> length - 1\<close> does not fail, it yields
  \<open>undefined\<close> (here \<open>None\<close>).
\<close>

definition js_index :: "'a list \<Rightarrow> int \<Rightarrow> 'a option" where
  "js_index xs i = (if 0 \<le> i \<and> i < int (length xs) then Some (xs ! nat i) else None)"

text \<open>
  \<open>xs.slice(0, e)\<close>: a negative end counts from the end of the array, and an end beyond
  the length is cut to the length.
\<close>

definition js_slice0 :: "'a list \<Rightarrow> int \<Rightarrow> 'a list" where
  "js_slice0 xs e =
     (if e < 0 then take (nat (max (int (length xs) + e) 0)) xs else take (nat e) xs)"

section \<open>The navigation store (navigationStore.ts)\<close>

text \<open>
  \<open>interface CameraState\<close>. The four fields are declared mandatory, but the store
  builds camera objects by spreading (\<open>{ ...previousState }\<close>), and spreading
  \<open>undefined\<close> gives an object with no field at all; so each field is optional here and
  \<open>emptyObject\<close> is that object.
\<close>

record CameraState =
  position :: "vec3 option"
  target :: "vec3 option"
  zoom :: "real option"
  fov :: "real option"

definition emptyObject :: CameraState where
  "emptyObject = \<lparr>position = None, target = None, zoom = None, fov = None\<rparr>"

text \<open>\<open>{ ...c }\<close> for a value \<open>c\<close> that may be \<open>undefined\<close>.\<close>

definition spread :: "CameraState option \<Rightarrow> CameraState" where
  "spread c = (case c of None \<Rightarrow> emptyObject | Some v \<Rightarrow> v)"

definition defaultCameraState :: CameraState where
  "defaultCameraState =
     \<lparr>position = Some (0, 0, 10), target = Some (0, 0, 0), zoom = Some 1, fov = Some 75\<rparr>"

text \<open>The data fields of \<open>interface NavigationState\<close>; its actions are the functions below.\<close>

record NavigationState =
  camera :: CameraState
  defaultCamera :: CameraState
  history :: "CameraState list"
  currentHistoryIndex :: int
  isAnimating :: bool
  animationDuration :: real
  isDragging :: bool
  isSpaceMouseActive :: bool

definition initialState :: NavigationState where
  "initialState =
     \<lparr>camera = defaultCameraState,
      defaultCamera = defaultCameraState,
      history = [],
      currentHistoryIndex = - 1,
      isAnimating = False,
      animationDuration = 1000,
      isDragging = False,
      isSpaceMouseActive = False\<rparr>"

definition setCameraPosition :: "vec3 \<Rightarrow> NavigationState \<Rightarrow> NavigationState" where
  "setCameraPosition p s = s\<lparr>camera := (camera s)\<lparr>position := Some p\<rparr>\<rparr>"

definition setCameraTarget :: "vec3 \<Rightarrow> NavigationState \<Rightarrow> NavigationState" where
  "setCameraTarget t s = s\<lparr>camera := (camera s)\<lparr>target := Some t\<rparr>\<rparr>"

definition setZoom :: "real \<Rightarrow> NavigationState \<Rightarrow> NavigationState" where
  "setZoom z s = s\<lparr>camera := (camera s)\<lparr>zoom := Some (max (1 / 10) (min 10 z))\<rparr>\<rparr>"

text \<open>
  The callback that \<open>resetCamera\<close>, \<open>animateToPosition\<close>, \<open>navigateBack\<close> and
  \<open>navigateForward\<close> hand to \<open>setTimeout\<close>. It runs later, as a transition of its own;
  the four functions below are what the calls do before they return.
\<close>

definition clearAnimating :: "NavigationState \<Rightarrow> NavigationState" where
  "clearAnimating s = s\<lparr>isAnimating := False\<rparr>"

definition resetCamera :: "NavigationState \<Rightarrow> NavigationState" where
  "resetCamera s = s\<lparr>camera := defaultCamera s, isAnimating := True\<rparr>"

definition maxHistorySize :: nat where
  "maxHistorySize = 50"

definition addToHistory :: "NavigationState \<Rightarrow> NavigationState" where
  "addToHistory s =
     (let newHistory = js_slice0 (history s) (currentHistoryIndex s + 1) @ [camera s];
          newHistory = (if length newHistory > maxHistorySize then tl newHistory else newHistory)
      in s\<lparr>history := newHistory, currentHistoryIndex := int (length newHistory) - 1\<rparr>)"

text \<open>
  \<open>animateToPosition(position, target?)\<close>: \<open>target || currentCamera.target\<close> takes the
  argument when it is given (an array is never falsy).
\<close>

definition animateToPosition :: "vec3 \<Rightarrow> vec3 option \<Rightarrow> NavigationState \<Rightarrow> NavigationState" where
  "animateToPosition p t s =
     (let currentCamera = camera s;
          newTarget = (case t of Some v \<Rightarrow> Some v | None \<Rightarrow> target currentCamera)
      in addToHistory
           (s\<lparr>camera := currentCamera\<lparr>position := Some p, target := newTarget\<rparr>,
              isAnimating := True\<rparr>))"

definition navigateBack :: "NavigationState \<Rightarrow> NavigationState" where
  "navigateBack s =
     (if currentHistoryIndex s > 0
      then let previousState = js_index (history s) (currentHistoryIndex s - 1)
           in s\<lparr>camera := spread previousState,
                currentHistoryIndex := currentHistoryIndex s - 1,
                isAnimating := True\<rparr>
      else s)"

definition navigateForward :: "NavigationState \<Rightarrow> NavigationState" where
  "navigateForward s =
     (if currentHistoryIndex s < int (length (history s)) - 1
      then let nextState = js_index (history s) (currentHistoryIndex s + 1)
           in s\<lparr>camera := spread nextState,
                currentHistoryIndex := currentHistoryIndex s + 1,
                isAnimating := True\<rparr>
      else s)"

definition setDragging :: "bool \<Rightarrow> NavigationState \<Rightarrow> NavigationState" where
  "setDragging b s = s\<lparr>isDragging := b\<rparr>"

definition setSpaceMouseActive :: "bool \<Rightarrow> NavigationState \<Rightarrow> NavigationState" where
  "setSpaceMouseActive b s = s\<lparr>isSpaceMouseActive := b\<rparr>"

text \<open>
  \<open>updateFromThreeCamera\<close> reads a Three.js camera. Only what it reads is kept: the
  position, the world direction, the zoom and the field of view of a perspective camera;
  for any other camera the action does nothing.
\<close>

record PerspectiveCamera =
  three_position :: vec3
  three_direction :: vec3
  three_zoom :: real
  three_fov :: real

datatype ThreeCamera = Perspective PerspectiveCamera | OtherCamera

fun updateFromThreeCamera :: "ThreeCamera \<Rightarrow> NavigationState \<Rightarrow> NavigationState" where
  "updateFromThreeCamera (Perspective c) s =
     (case (three_position c, three_direction c) of
        ((px, py, pz), (dx, dy, dz)) \<Rightarrow>
          s\<lparr>camera := (camera s)
               \<lparr>position := Some (px, py, pz),
                target := Some (px + dx * 10, py + dy * 10, pz + dz * 10),
                zoom := Some (three_zoom c),
                fov := Some (three_fov c)\<rparr>\<rparr>)"
| "updateFromThreeCamera OtherCamera s = s"

subsection \<open>Traces of store actions\<close>

text \<open>
  One constructor for each action of the store, and \<open>TimerFired\<close> for a
  \<open>setTimeout\<close> callback that runs. \<open>run\<close> applies a trace, oldest action first. The
  traces do not record which callbacks are pending, so \<open>TimerFired\<close> may occur anywhere:
  they include every run of the program, and more.
\<close>

datatype action =
    SetCameraPosition vec3
  | SetCameraTarget vec3
  | SetZoom real
  | ResetCamera
  | AnimateToPosition vec3 "vec3 option"
  | NavigateBack
  | NavigateForward
  | AddToHistory
  | SetDragging bool
  | SetSpaceMouseActive bool
  | UpdateFromThreeCamera ThreeCamera
  | TimerFired

fun perform :: "action \<Rightarrow> NavigationState \<Rightarrow> NavigationState" where
  "perform (SetCameraPosition p) s = setCameraPosition p s"
| "perform (SetCameraTarget t) s = setCameraTarget t s"
| "perform (SetZoom z) s = setZoom z s"
| "perform ResetCamera s = resetCamera s"
| "perform (AnimateToPosition p t) s = animateToPosition p t s"
| "perform NavigateBack s = navigateBack s"
| "perform NavigateForward s = navigateForward s"
| "perform AddToHistory s = addToHistory s"
| "perform (SetDragging b) s = setDragging b s"
| "perform (SetSpaceMouseActive b) s = setSpaceMouseActive b s"
| "perform (UpdateFromThreeCamera c) s = updateFromThreeCamera c s"
| "perform TimerFired s = clearAnimating s"

fun run :: "action list \<Rightarrow> NavigationState \<Rightarrow> NavigationState" where
  "run [] s = s"
| "run (a # as) s = run as (perform a s)"

text \<open>The history is well formed: at most 50 entries, and the index is \<open>-1\<close> on the
  empty history and the position of an entry otherwise.\<close>

definition history_ok :: "NavigationState \<Rightarrow> bool" where
  "history_ok s \<longleftrightarrow>
     length (history s) \<le> maxHistorySize \<and>
     - 1 \<le> currentHistoryIndex s \<and>
     currentHistoryIndex s < int (length (history s)) \<and>
     (history s = [] \<or> 0 \<le> currentHistoryIndex s)"

section \<open>The input controller (SpaceMouseController.ts)\<close>

text \<open>
  \<open>interface SpaceMouseMotion\<close>. The source's fields \<open>x\<close>, \<open>y\<close>, \<open>z\<close>, \<open>rx\<close>, \<open>ry\<close>,
  \<open>rz\<close> carry the prefix \<open>m\<close> here, so that they do not capture the variables of the
  statements below.
\<close>

record SpaceMouseMotion =
  mx :: real
  my :: real
  mz :: real
  mrx :: real
  mry :: real
  mrz :: real
  timestamp :: real

text \<open>\<open>interface SpaceMouseSettings\<close> of settingsStore.ts, and its default value there.\<close>

record SpaceMouseSettings =
  sensitivity :: real
  invertX :: bool
  invertY :: bool
  invertZ :: bool
  invertRX :: bool
  invertRY :: bool
  invertRZ :: bool
  deadZone :: real
  smoothing :: real

definition defaultSpaceMouseSettings :: SpaceMouseSettings where
  "defaultSpaceMouseSettings =
     \<lparr>sensitivity = 1, invertX = False, invertY = False, invertZ = False,
      invertRX = False, invertRY = False, invertRZ = False,
      deadZone = 1 / 10, smoothing = 8 / 10\<rparr>"

text \<open>The keys of \<open>smoothingBuffer\<close>, in the order of the object literal.\<close>

datatype axis = X | Y | Z | RX | RY | RZ

definition axes :: "axis list" where
  "axes = [X, Y, Z, RX, RY, RZ]"

fun axis_value :: "SpaceMouseMotion \<Rightarrow> axis \<Rightarrow> real" where
  "axis_value m X = mx m"
| "axis_value m Y = my m"
| "axis_value m Z = mz m"
| "axis_value m RX = mrx m"
| "axis_value m RY = mry m"
| "axis_value m RZ = mrz m"

text \<open>The fields of the controller that the motion pipeline reads and writes.\<close>

record SpaceMouseController =
  motionBuffer :: "SpaceMouseMotion list"
  lastMotion :: "SpaceMouseMotion option"
  smoothingBuffer :: "axis \<Rightarrow> real list"

definition initialController :: SpaceMouseController where
  "initialController =
     \<lparr>motionBuffer = [], lastMotion = None, smoothingBuffer = (\<lambda>a. [])\<rparr>"

text \<open>
  What the pipeline acts on: the controller, the navigation store, and the number of
  calls of \<open>AudioManager.playNavigationMove\<close> made so far.
\<close>

record World =
  controller :: SpaceMouseController
  navigation :: NavigationState
  navigationMoves :: nat

definition initialWorld :: World where
  "initialWorld =
     \<lparr>controller = initialController, navigation = initialState, navigationMoves = 0\<rparr>"

text \<open>
  The inner function of \<open>applyDeadZone\<close>; \<open>Math.sign\<close> is \<open>sgn\<close>. With a dead zone
  of exactly \<open>1\<close> the source divides by zero and yields \<open>NaN\<close> or an infinity, which a
  \<open>real\<close> cannot be: the statements about values below take the dead zone in \<open>[0, 1)\<close>,
  the range of the setting.
\<close>

definition applyDeadZoneToValue :: "real \<Rightarrow> real \<Rightarrow> real" where
  "applyDeadZoneToValue dz v =
     (let absValue = \<bar>v\<bar>
      in if absValue < dz then 0
         else let sign = sgn v;
                  scaledValue = (absValue - dz) / (1 - dz)
              in sign * scaledValue)"

definition applyDeadZone :: "SpaceMouseMotion \<Rightarrow> real \<Rightarrow> SpaceMouseMotion" where
  "applyDeadZone motion dz =
     \<lparr>mx = applyDeadZoneToValue dz (mx motion),
      my = applyDeadZoneToValue dz (my motion),
      mz = applyDeadZoneToValue dz (mz motion),
      mrx = applyDeadZoneToValue dz (mrx motion),
      mry = applyDeadZoneToValue dz (mry motion),
      mrz = applyDeadZoneToValue dz (mrz motion),
      timestamp = timestamp motion\<rparr>"

definition hasSignificantMotion :: "SpaceMouseMotion \<Rightarrow> bool" where
  "hasSignificantMotion motion =
     (let threshold = 1 / 100
      in \<bar>mx motion\<bar> > threshold \<or> \<bar>my motion\<bar> > threshold \<or> \<bar>mz motion\<bar> > threshold \<or>
         \<bar>mrx motion\<bar> > threshold \<or> \<bar>mry motion\<bar> > threshold \<or> \<bar>mrz motion\<bar> > threshold)"

text \<open>
  The sample that \<open>handleMotion\<close> builds before it stores it: dead zone, then the
  inversions, then the sensitivity.
\<close>

definition processSample :: "SpaceMouseSettings \<Rightarrow> SpaceMouseMotion \<Rightarrow> SpaceMouseMotion" where
  "processSample settings motion =
     (let p = applyDeadZone motion (deadZone settings);
          p = (if invertX settings then p\<lparr>mx := mx p * (- 1)\<rparr> else p);
          p = (if invertY settings then p\<lparr>my := my p * (- 1)\<rparr> else p);
          p = (if invertZ settings then p\<lparr>mz := mz p * (- 1)\<rparr> else p);
          p = (if invertRX settings then p\<lparr>mrx := mrx p * (- 1)\<rparr> else p);
          p = (if invertRY settings then p\<lparr>mry := mry p * (- 1)\<rparr> else p);
          p = (if invertRZ settings then p\<lparr>mrz := mrz p * (- 1)\<rparr> else p)
      in p\<lparr>mx := mx p * sensitivity settings,
           my := my p * sensitivity settings,
           mz := mz p * sensitivity settings,
           mrx := mrx p * sensitivity settings,
           mry := mry p * sensitivity settings,
           mrz := mrz p * sensitivity settings\<rparr>)"

definition handleMotion :: "SpaceMouseSettings \<Rightarrow> SpaceMouseMotion \<Rightarrow> World \<Rightarrow> World" where
  "handleMotion settings motion w =
     (let processedMotion = processSample settings motion;
          buf = motionBuffer (controller w) @ [processedMotion];
          buf = (if length buf > 10 then tl buf else buf)
      in w\<lparr>controller := (controller w)\<lparr>motionBuffer := buf, lastMotion := Some processedMotion\<rparr>,
           navigation := setSpaceMouseActive True (navigation w),
           navigationMoves :=
             (if hasSignificantMotion processedMotion then navigationMoves w + 1
              else navigationMoves w)\<rparr>)"

text \<open>The \<open>for\<close> loop of \<open>calculateSmoothedValue\<close>, from index \<open>i\<close> on.\<close>

function ema_loop :: "real \<Rightarrow> real list \<Rightarrow> nat \<Rightarrow> real \<Rightarrow> real" where
  "ema_loop smoothingFactor buffer i smoothed =
     (if i < length buffer
      then ema_loop smoothingFactor buffer (i + 1)
             (smoothingFactor * smoothed + (1 - smoothingFactor) * buffer ! i)
      else smoothed)"
  by pat_completeness auto
termination
  by (relation "measure (\<lambda>(smoothingFactor, buffer, i, smoothed). length buffer - i)") auto

definition calculateSmoothedValue :: "SpaceMouseController \<Rightarrow> axis \<Rightarrow> real \<Rightarrow> real" where
  "calculateSmoothedValue c a smoothingFactor =
     (let buffer = smoothingBuffer c a
      in if length buffer = 0 then 0
         else if smoothingFactor = 0 then buffer ! (length buffer - 1)
         else ema_loop smoothingFactor buffer 1 (buffer ! 0))"

text \<open>The body of the \<open>forEach\<close> of \<open>applySmoothingFilter\<close>, for one axis.\<close>

definition pushAxis :: "SpaceMouseMotion \<Rightarrow> (axis \<Rightarrow> real list) \<Rightarrow> axis \<Rightarrow> (axis \<Rightarrow> real list)" where
  "pushAxis latest sb a =
     (let b = sb a @ [axis_value latest a];
          b = (if length b > 5 then tl b else b)
      in sb(a := b))"

definition applySmoothingFilter ::
  "real \<Rightarrow> SpaceMouseController \<Rightarrow> SpaceMouseMotion option \<times> SpaceMouseController" where
  "applySmoothingFilter smoothingFactor c =
     (if length (motionBuffer c) = 0 then (None, c)
      else let latest = motionBuffer c ! (length (motionBuffer c) - 1);
               c = c\<lparr>smoothingBuffer := foldl (pushAxis latest) (smoothingBuffer c) axes\<rparr>;
               smoothed =
                 \<lparr>mx = calculateSmoothedValue c X smoothingFactor,
                  my = calculateSmoothedValue c Y smoothingFactor,
                  mz = calculateSmoothedValue c Z smoothingFactor,
                  mrx = calculateSmoothedValue c RX smoothingFactor,
                  mry = calculateSmoothedValue c RY smoothingFactor,
                  mrz = calculateSmoothedValue c RZ smoothingFactor,
                  timestamp = timestamp latest\<rparr>
           in (Some smoothed, c))"

text \<open>
  \<open>applyMotionToCamera\<close>. Reading \<open>currentCamera.position[0]\<close> (or \<open>target[0]\<close>) of a
  camera object that lacks the field raises a \<open>TypeError\<close> before the store is written.
\<close>

definition applyMotionToCamera :: "SpaceMouseMotion \<Rightarrow> NavigationState \<Rightarrow> js_error + NavigationState" where
  "applyMotionToCamera motion s =
     (let currentCamera = camera s;
          deltaTime = 16 / 1000;
          translationSpeed = 5;
          rotationSpeed = 1
      in case position currentCamera of
           None \<Rightarrow> Inl TypeError
         | Some (p0, p1, p2) \<Rightarrow>
             (case target currentCamera of
                None \<Rightarrow> Inl TypeError
              | Some (t0, t1, t2) \<Rightarrow>
                  let newPosition =
                        (p0 + mx motion * translationSpeed * deltaTime,
                         p1 + my motion * translationSpeed * deltaTime,
                         p2 + mz motion * translationSpeed * deltaTime);
                      newTarget =
                        (t0 + mrx motion * rotationSpeed * deltaTime,
                         t1 + mry motion * rotationSpeed * deltaTime,
                         t2 + mrz motion * rotationSpeed * deltaTime)
                  in Inr (setCameraTarget newTarget (setCameraPosition newPosition s))))"

text \<open>One run of \<open>processMotion\<close>, the per-frame callback of \<open>startMotionProcessing\<close>.\<close>

definition processMotion :: "SpaceMouseSettings \<Rightarrow> World \<Rightarrow> js_error + World" where
  "processMotion settings w =
     (if length (motionBuffer (controller w)) > 0
      then case applySmoothingFilter (smoothing settings) (controller w) of
             (None, c) \<Rightarrow> Inr (w\<lparr>controller := c\<rparr>)
           | (Some smoothedMotion, c) \<Rightarrow>
               (case applyMotionToCamera smoothedMotion (navigation w) of
                  Inl e \<Rightarrow> Inl e
                | Inr n \<Rightarrow> Inr (w\<lparr>controller := c, navigation := n\<rparr>))
      else Inr w)"

text \<open>A call \<open>animateToPosition(position, target?)\<close> as an action of a trace.\<close>

definition animateCall :: "vec3 \<times> vec3 option \<Rightarrow> action" where
  "animateCall c = AnimateToPosition (fst c) (snd c)"

text \<open>
  The smoothing as the specification words it: starting from the oldest retained value,
  blend \<open>smoothed = \<alpha> \<cdot> smoothed + (1 - \<alpha>) \<cdot> next\<close> across the window in
  chronological order. \<open>spec_blend_fold \<alpha> v0 vs\<close> is that left fold over the window
  \<open>v0 # vs\<close>, oldest value first; it is compared with \<open>calculateSmoothedValue\<close> below.
\<close>

definition spec_blend_fold :: "real \<Rightarrow> real \<Rightarrow> real list \<Rightarrow> real" where
  "spec_blend_fold \<alpha> v0 vs = foldl (\<lambda>smoothed next. \<alpha> * smoothed + (1 - \<alpha>) * next) v0 vs"

text \<open>
  Whether \<open>handleMotion\<close> negates an axis: the six tests \<open>if (settings.invertX) \<dots>\<close>,
  read by axis.
\<close>

fun inverted :: "SpaceMouseSettings \<Rightarrow> axis \<Rightarrow> bool" where
  "inverted st X = invertX st"
| "inverted st Y = invertY st"
| "inverted st Z = invertZ st"
| "inverted st RX = invertRX st"
| "inverted st RY = invertRY st"
| "inverted st RZ = invertRZ st"

subsection \<open>The smoothing loop in double arithmetic\<close>

text \<open>
  A JavaScript \<open>number\<close> is an IEEE 754 binary64 value and every \<open>+\<close>, \<open>-\<close> and \<open>*\<close>
  returns the exact result rounded to the nearest such value, ties to the even
  significand. The finite doubles are the reals \<open>m \<cdot> 2 ^ e\<close> with an integer \<open>\<bar>m\<bar> < 2 ^ 53\<close>
  and \<open>-1074 \<le> e\<close>, below \<open>2 ^ 1024\<close> in magnitude. \<open>round_double x\<close> is the double that
  a result \<open>x\<close> rounds to: the spacing of the doubles around \<open>x\<close> is \<open>2\<close> to the power
  \<open>double_ulp_exponent x\<close> (\<open>52\<close> binary places below the leading bit of \<open>x\<close>, and never
  finer than \<open>2 ^ (-1074)\<close>, the subnormal spacing), and \<open>None\<close> stands for a result that
  is not finite (the rounded magnitude reaches \<open>2 ^ 1024\<close>).
\<close>

definition double_ulp_exponent :: "real \<Rightarrow> int" where
  "double_ulp_exponent x = max (\<lfloor>log 2 \<bar>x\<bar>\<rfloor> - 52) (- 1074)"

definition round_half_even :: "real \<Rightarrow> int" where
  "round_half_even y =
     (let f = \<lfloor>y\<rfloor>
      in if y - of_int f < 1 / 2 then f
         else if 1 / 2 < y - of_int f then f + 1
         else if even f then f else f + 1)"

definition round_double :: "real \<Rightarrow> real option" where
  "round_double x =
     (if x = 0 then Some 0
      else let e = double_ulp_exponent x;
               r = of_int (round_half_even (x / 2 powr of_int e)) * 2 powr of_int e
           in if 2 powr 1024 \<le> \<bar>r\<bar> then None else Some r)"

text \<open>
  The three operations of the loop body, and the body itself,
  \<open>smoothingFactor * smoothed + (1 - smoothingFactor) * buffer[i]\<close>: the left product,
  then the difference, the right product, and the sum, each rounded. An operation on a
  value that is not finite gives a value that is not finite.
\<close>

definition double_mul :: "real \<Rightarrow> real \<Rightarrow> real option" where
  "double_mul a b = round_double (a * b)"

definition double_add :: "real \<Rightarrow> real \<Rightarrow> real option" where
  "double_add a b = round_double (a + b)"

definition double_sub :: "real \<Rightarrow> real \<Rightarrow> real option" where
  "double_sub a b = round_double (a - b)"

definition double_blend :: "real \<Rightarrow> real \<Rightarrow> real \<Rightarrow> real option" where
  "double_blend smoothingFactor smoothed next =
     (case double_mul smoothingFactor smoothed of
        None \<Rightarrow> None
      | Some p \<Rightarrow>
          (case double_sub 1 smoothingFactor of
             None \<Rightarrow> None
           | Some q \<Rightarrow>
               (case double_mul q next of
                  None \<Rightarrow> None
                | Some r \<Rightarrow> double_add p r)))"

text \<open>\<open>calculateSmoothedValue\<close> and its loop once more, with the rounded body.\<close>

function ema_loop_double :: "real \<Rightarrow> real list \<Rightarrow> nat \<Rightarrow> real \<Rightarrow> real option" where
  "ema_loop_double smoothingFactor buffer i smoothed =
     (if i < length buffer
      then case double_blend smoothingFactor smoothed (buffer ! i) of
             None \<Rightarrow> None
           | Some smoothed' \<Rightarrow> ema_loop_double smoothingFactor buffer (i + 1) smoothed'
      else Some smoothed)"
  by pat_completeness auto
termination
  by (relation "measure (\<lambda>(smoothingFactor, buffer, i, smoothed). length buffer - i)") auto

definition calculateSmoothedValue_double :: "SpaceMouseController \<Rightarrow> axis \<Rightarrow> real \<Rightarrow> real option" where
  "calculateSmoothedValue_double c a smoothingFactor =
     (let buffer = smoothingBuffer c a
      in if length buffer = 0 then Some 0
         else if smoothingFactor = 0 then Some (buffer ! (length buffer - 1))
         else ema_loop_double smoothingFactor buffer 1 (buffer ! 0))"

text \<open>
  The distance that rounding can put between the double result and the exact one, for a
  window of \<open>n\<close> values of magnitude at most \<open>b\<close>: each of the \<open>n - 1\<close> blends adds
  at most the fraction \<open>2 ^ (-50)\<close> of the magnitude reached so far (and of \<open>2 ^ (-1022)\<close>, for
  results in the subnormal range).
\<close>

definition blend_tolerance :: "nat \<Rightarrow> real \<Rightarrow> real" where
  "blend_tolerance n b = ((1 + 2 powr (- 50)) ^ (n - 1) - 1) * (b + 2 powr (- 1022))"

section \<open>Properties of the navigation store\<close>

subsection \<open>The history stays well formed\<close>

lemma history_ok_camera [simp]: "history_ok (s\<lparr>camera := c\<rparr>) = history_ok s"
  by (simp add: history_ok_def)

lemma history_ok_isAnimating [simp]: "history_ok (s\<lparr>isAnimating := b\<rparr>) = history_ok s"
  by (simp add: history_ok_def)

lemma addToHistory_ok: "history_ok s \<Longrightarrow> history_ok (addToHistory s)"
  by (auto simp: history_ok_def addToHistory_def Let_def js_slice0_def maxHistorySize_def)

lemma navigateBack_ok: "history_ok s \<Longrightarrow> history_ok (navigateBack s)"
  by (auto simp: history_ok_def navigateBack_def Let_def)

lemma navigateForward_ok: "history_ok s \<Longrightarrow> history_ok (navigateForward s)"
  by (auto simp: history_ok_def navigateForward_def Let_def)

lemma updateFromThreeCamera_ok: "history_ok s \<Longrightarrow> history_ok (updateFromThreeCamera c s)"
  by (cases c) (auto simp: history_ok_def split: prod.splits)

lemma perform_ok:
  assumes "history_ok s"
  shows "history_ok (perform a s)"
proof (cases a)
  case (AnimateToPosition p t)
  then show ?thesis
    using assms by (simp add: animateToPosition_def Let_def addToHistory_ok)
next
  case (SetDragging b)
  then show ?thesis using assms by (simp add: history_ok_def setDragging_def)
next
  case (SetSpaceMouseActive b)
  then show ?thesis using assms by (simp add: history_ok_def setSpaceMouseActive_def)
qed (use assms in \<open>simp_all add: addToHistory_ok navigateBack_ok navigateForward_ok
      updateFromThreeCamera_ok setCameraPosition_def setCameraTarget_def setZoom_def
      resetCamera_def clearAnimating_def\<close>)

lemma run_ok: "history_ok s \<Longrightarrow> history_ok (run as s)"
  by (induction as arbitrary: s) (simp_all add: perform_ok)

lemma initial_ok: "history_ok initialState"
  by (simp add: history_ok_def initialState_def maxHistorySize_def)

subsection \<open>Appending at the tail, and walking back\<close>

lemma animate_at_tail:
  assumes "currentHistoryIndex s = int (length (history s)) - 1"
    and "length (history s) < maxHistorySize"
  shows "history (animateToPosition p t s) = history s @ [camera (animateToPosition p t s)]"
    and "currentHistoryIndex (animateToPosition p t s) = int (length (history s))"
  using assms
  by (simp_all add: animateToPosition_def addToHistory_def Let_def js_slice0_def)

lemma animate_run:
  assumes "currentHistoryIndex s = int (length (history s)) - 1"
    and "length (history s) + length calls \<le> maxHistorySize"
  shows "currentHistoryIndex (run (map animateCall calls) s) =
           int (length (history s) + length calls) - 1 \<and>
         length (history (run (map animateCall calls) s)) = length (history s) + length calls \<and>
         take (length (history s)) (history (run (map animateCall calls) s)) = history s \<and>
         (calls \<noteq> [] \<longrightarrow> camera (run (map animateCall calls) s) =
             last (history (run (map animateCall calls) s)))"
  using assms
proof (induction calls arbitrary: s)
  case Nil
  then show ?case by simp
next
  case (Cons c cs)
  let ?s1 = "animateToPosition (fst c) (snd c) s"
  have lt: "length (history s) < maxHistorySize" using Cons.prems(2) by simp
  have h1: "history ?s1 = history s @ [camera ?s1]"
    and i1: "currentHistoryIndex ?s1 = int (length (history s))"
    using animate_at_tail [OF Cons.prems(1) lt] by blast+
  have len1: "length (history ?s1) = Suc (length (history s))" using h1 by simp
  have p1: "currentHistoryIndex ?s1 = int (length (history ?s1)) - 1"
    using i1 len1 by simp
  have p2: "length (history ?s1) + length cs \<le> maxHistorySize"
    using Cons.prems(2) len1 by simp
  note IH = Cons.IH [OF p1 p2]
  have run_eq: "run (map animateCall (c # cs)) s = run (map animateCall cs) ?s1"
    by (simp add: animateCall_def)
  have tk: "take (length (history s)) (history (run (map animateCall cs) ?s1)) = history s"
  proof -
    have "take (length (history s))
            (take (length (history ?s1)) (history (run (map animateCall cs) ?s1)))
          = take (length (history s)) (history ?s1)"
      using IH by simp
    then show ?thesis using h1 len1 by (simp add: min_def)
  qed
  have cam: "camera (run (map animateCall cs) ?s1) = last (history (run (map animateCall cs) ?s1))"
  proof (cases "cs = []")
    case True
    then show ?thesis using h1 by simp
  next
    case False
    then show ?thesis using IH by simp
  qed
  show ?case
    unfolding run_eq using IH len1 tk cam by simp
qed

lemma navigateBack_step:
  assumes "0 < currentHistoryIndex s"
    and "currentHistoryIndex s \<le> int (length (history s))"
  shows "navigateBack s =
           s\<lparr>camera := history s ! nat (currentHistoryIndex s - 1),
             currentHistoryIndex := currentHistoryIndex s - 1,
             isAnimating := True\<rparr>"
  using assms by (simp add: navigateBack_def js_index_def spread_def)

lemma navigateBack_stay: "currentHistoryIndex s \<le> 0 \<Longrightarrow> navigateBack s = s"
  by (simp add: navigateBack_def)

lemma back_funpow:
  assumes "0 \<le> currentHistoryIndex s"
    and "currentHistoryIndex s < int (length (history s))"
    and "camera s = history s ! nat (currentHistoryIndex s)"
  shows "history ((navigateBack ^^ k) s) = history s \<and>
         currentHistoryIndex ((navigateBack ^^ k) s) = max 0 (currentHistoryIndex s - int k) \<and>
         camera ((navigateBack ^^ k) s) = history s ! nat (currentHistoryIndex s - int k)"
proof (induction k)
  case 0
  then show ?case using assms by simp
next
  case (Suc k)
  let ?sk = "(navigateBack ^^ k) s"
  have hk: "history ?sk = history s"
    and ik: "currentHistoryIndex ?sk = max 0 (currentHistoryIndex s - int k)"
    and ck: "camera ?sk = history s ! nat (currentHistoryIndex s - int k)"
    using Suc by blast+
  have unf: "(navigateBack ^^ Suc k) s = navigateBack ?sk" by simp
  show ?case
  proof (cases "0 < currentHistoryIndex ?sk")
    case True
    have le: "currentHistoryIndex ?sk \<le> int (length (history ?sk))"
      using ik hk assms(2) by simp
    have pos: "0 < currentHistoryIndex s - int k" using True ik by simp
    have "navigateBack ?sk =
            ?sk\<lparr>camera := history ?sk ! nat (currentHistoryIndex ?sk - 1),
                currentHistoryIndex := currentHistoryIndex ?sk - 1,
                isAnimating := True\<rparr>"
      by (rule navigateBack_step [OF True le])
    then have "history (navigateBack ?sk) = history s"
      and "currentHistoryIndex (navigateBack ?sk) = currentHistoryIndex s - int k - 1"
      and "camera (navigateBack ?sk) = history s ! nat (currentHistoryIndex s - int k - 1)"
      using hk ik pos by simp_all
    then show ?thesis unfolding unf using pos by (simp add: algebra_simps)
  next
    case False
    then have stay: "navigateBack ?sk = ?sk" by (simp add: navigateBack_stay)
    have le0: "currentHistoryIndex s - int k \<le> 0" using False ik by simp
    then have "nat (currentHistoryIndex s - int (Suc k)) = nat (currentHistoryIndex s - int k)"
      by simp
    then show ?thesis unfolding unf stay using hk ik ck le0 by simp
  qed
qed

text \<open>
  The definitions that evaluate a concrete trace of store actions, a concrete sample in
  \<open>handleMotion\<close>, and a concrete frame in \<open>processMotion\<close>. The equation of the loop
  is unfolded on demand only.
\<close>

declare ema_loop.simps [simp del]

lemmas nav_eval = initialState_def animateToPosition_def addToHistory_def navigateBack_def
  navigateForward_def setZoom_def setCameraPosition_def setCameraTarget_def resetCamera_def
  clearAnimating_def js_slice0_def js_index_def spread_def maxHistorySize_def Let_def
  defaultCameraState_def

lemmas pipeline_eval = handleMotion_def processSample_def applyDeadZone_def
  applyDeadZoneToValue_def hasSignificantMotion_def defaultSpaceMouseSettings_def
  initialWorld_def initialController_def setSpaceMouseActive_def

lemmas frame_eval = processMotion_def applySmoothingFilter_def pushAxis_def axes_def
  calculateSmoothedValue_def ema_loop.simps applyMotionToCamera_def

subsection \<open>Claims about the history\<close>

text \<open>
  Claim C6. In every state that a trace of store actions reaches from the initial state
  (the eight actions that the claim lists, and also \<open>setDragging\<close>,
  \<open>setSpaceMouseActive\<close>, \<open>updateFromThreeCamera\<close> and the timer callbacks), the
  history index is \<open>-1\<close> exactly when the history is empty, and otherwise it is the
  position of an entry: \<open>0 \<le> currentHistoryIndex < history.length\<close>.
\<close>

theorem history_index_invariant:
  "(currentHistoryIndex (run as initialState) = - 1 \<longleftrightarrow> history (run as initialState) = []) \<and>
   (history (run as initialState) \<noteq> [] \<longrightarrow>
      0 \<le> currentHistoryIndex (run as initialState) \<and>
      currentHistoryIndex (run as initialState) < int (length (history (run as initialState))))"
  using run_ok [OF initial_ok, of as] by (auto simp: history_ok_def)

theorem history_index_invariant_witness:
  "history (run [AnimateToPosition (1, 2, 3) None, SetZoom 4, NavigateBack, ResetCamera,
                 AddToHistory, NavigateBack, TimerFired] initialState) \<noteq> [] \<and>
   currentHistoryIndex (run [AnimateToPosition (1, 2, 3) None, SetZoom 4, NavigateBack,
                 ResetCamera, AddToHistory, NavigateBack, TimerFired] initialState) = 0 \<and>
   length (history (run [AnimateToPosition (1, 2, 3) None, SetZoom 4, NavigateBack,
                 ResetCamera, AddToHistory, NavigateBack, TimerFired] initialState)) = 2"
  using history_index_invariant [of "[AnimateToPosition (1, 2, 3) None, SetZoom 4, NavigateBack,
                 ResetCamera, AddToHistory, NavigateBack, TimerFired]"]
  by (simp add: initialState_def animateToPosition_def addToHistory_def navigateBack_def
        setZoom_def resetCamera_def clearAnimating_def js_slice0_def js_index_def spread_def
        maxHistorySize_def Let_def defaultCameraState_def)

text \<open>
  Claim C9. \<open>navigateBack\<close> and \<open>navigateForward\<close> never change the history, the
  default camera or the animation duration, whatever the state: the state after the call
  is the state before it with at most the camera, the index and the animating flag
  replaced.
\<close>

theorem history_traversal_frame:
  "history (navigateBack s) = history s \<and>
   defaultCamera (navigateBack s) = defaultCamera s \<and>
   animationDuration (navigateBack s) = animationDuration s \<and>
   history (navigateForward s) = history s \<and>
   defaultCamera (navigateForward s) = defaultCamera s \<and>
   animationDuration (navigateForward s) = animationDuration s \<and>
   (\<exists>c i b. navigateBack s = s\<lparr>camera := c, currentHistoryIndex := i, isAnimating := b\<rparr>) \<and>
   (\<exists>c i b. navigateForward s = s\<lparr>camera := c, currentHistoryIndex := i, isAnimating := b\<rparr>)"
proof -
  have same: "s = s\<lparr>camera := camera s, currentHistoryIndex := currentHistoryIndex s,
                     isAnimating := isAnimating s\<rparr>"
    by simp
  have b: "\<exists>c i b. navigateBack s = s\<lparr>camera := c, currentHistoryIndex := i, isAnimating := b\<rparr>"
  proof (cases "0 < currentHistoryIndex s")
    case True
    then show ?thesis by (simp add: navigateBack_def Let_def) blast
  next
    case False
    then have "navigateBack s = s" by (simp add: navigateBack_def)
    then show ?thesis using same by metis
  qed
  have f: "\<exists>c i b. navigateForward s = s\<lparr>camera := c, currentHistoryIndex := i, isAnimating := b\<rparr>"
  proof (cases "currentHistoryIndex s < int (length (history s)) - 1")
    case True
    then show ?thesis by (simp add: navigateForward_def Let_def) blast
  next
    case False
    then have "navigateForward s = s" by (simp add: navigateForward_def)
    then show ?thesis using same by metis
  qed
  show ?thesis using b f by (simp add: navigateBack_def navigateForward_def Let_def)
qed

lemma animate_camera:
  "camera (animateToPosition p t s) =
     (camera s)\<lparr>position := Some p,
                target := (case t of Some v \<Rightarrow> Some v | None \<Rightarrow> target (camera s))\<rparr>"
  by (simp add: animateToPosition_def addToHistory_def Let_def)

lemma addToHistory_last:
  "history (addToHistory s) \<noteq> [] \<and> last (history (addToHistory s)) = camera s \<and>
   currentHistoryIndex (addToHistory s) = int (length (history (addToHistory s))) - 1"
proof -
  let ?h = "js_slice0 (history s) (currentHistoryIndex s + 1) @ [camera s]"
  show ?thesis
  proof (cases "length ?h > maxHistorySize")
    case True
    then have "tl ?h \<noteq> []" by (cases ?h) (auto simp: maxHistorySize_def)
    moreover from this have "last (tl ?h) = last ?h" by (simp add: last_tl)
    ultimately show ?thesis using True by (simp add: addToHistory_def Let_def)
  next
    case False
    then show ?thesis by (simp add: addToHistory_def Let_def)
  qed
qed

lemma applyMotionToCamera_history:
  "applyMotionToCamera m s = Inr s' \<Longrightarrow>
     history s' = history s \<and> currentHistoryIndex s' = currentHistoryIndex s"
  by (auto simp: applyMotionToCamera_def Let_def setCameraTarget_def setCameraPosition_def
      split: option.splits prod.splits)

lemma processMotion_history:
  "processMotion st w = Inr w' \<Longrightarrow>
     history (navigation w') = history (navigation w) \<and>
     currentHistoryIndex (navigation w') = currentHistoryIndex (navigation w)"
  by (auto simp: processMotion_def split: if_splits prod.splits option.splits sum.splits
      dest: applyMotionToCamera_history)

text \<open>
  Claim C3, as the code has it. Of the operations that the claim names, only
  \<open>animateToPosition\<close> records a snapshot: it leaves the resulting camera as the last
  entry of the history, with the index on it, and when the index was at the tail of a
  history of fewer than 50 entries the history grows by exactly that one entry.
  \<open>resetCamera\<close>, \<open>setCameraPosition\<close>, \<open>setCameraTarget\<close> and the per-frame
  \<open>processMotion\<close> leave the history and the index as they were.
\<close>

theorem snapshot_only_on_animate:
  "history (resetCamera s) = history s \<and>
   currentHistoryIndex (resetCamera s) = currentHistoryIndex s \<and>
   history (setCameraPosition p s) = history s \<and>
   currentHistoryIndex (setCameraPosition p s) = currentHistoryIndex s \<and>
   history (setCameraTarget q s) = history s \<and>
   currentHistoryIndex (setCameraTarget q s) = currentHistoryIndex s \<and>
   (processMotion st w = Inr w' \<longrightarrow>
      history (navigation w') = history (navigation w) \<and>
      currentHistoryIndex (navigation w') = currentHistoryIndex (navigation w)) \<and>
   history (animateToPosition p t s) \<noteq> [] \<and>
   last (history (animateToPosition p t s)) = camera (animateToPosition p t s) \<and>
   currentHistoryIndex (animateToPosition p t s) =
     int (length (history (animateToPosition p t s))) - 1 \<and>
   (currentHistoryIndex s = int (length (history s)) - 1 \<and> length (history s) < maxHistorySize \<longrightarrow>
      history (animateToPosition p t s) = history s @ [camera (animateToPosition p t s)] \<and>
      length (history (animateToPosition p t s)) = length (history s) + 1)"
proof -
  let ?s1 = "s\<lparr>camera := (camera s)\<lparr>position := Some p,
                target := (case t of Some v \<Rightarrow> Some v | None \<Rightarrow> target (camera s))\<rparr>,
              isAnimating := True\<rparr>"
  have a: "animateToPosition p t s = addToHistory ?s1"
    by (simp add: animateToPosition_def Let_def)
  have c: "camera (addToHistory ?s1) = camera ?s1"
    by (simp add: addToHistory_def Let_def)
  have anim: "history (animateToPosition p t s) \<noteq> [] \<and>
      last (history (animateToPosition p t s)) = camera (animateToPosition p t s) \<and>
      currentHistoryIndex (animateToPosition p t s) =
        int (length (history (animateToPosition p t s))) - 1"
    unfolding a c using addToHistory_last [of ?s1] by simp
  have tail: "currentHistoryIndex s = int (length (history s)) - 1 \<and>
      length (history s) < maxHistorySize \<longrightarrow>
      history (animateToPosition p t s) = history s @ [camera (animateToPosition p t s)] \<and>
      length (history (animateToPosition p t s)) = length (history s) + 1"
    using animate_at_tail(1) [of s p t] by auto
  have frame: "history (resetCamera s) = history s \<and>
     currentHistoryIndex (resetCamera s) = currentHistoryIndex s \<and>
     history (setCameraPosition p s) = history s \<and>
     currentHistoryIndex (setCameraPosition p s) = currentHistoryIndex s \<and>
     history (setCameraTarget q s) = history s \<and>
     currentHistoryIndex (setCameraTarget q s) = currentHistoryIndex s"
    by (simp add: resetCamera_def setCameraPosition_def setCameraTarget_def)
  show ?thesis using frame anim tail processMotion_history [of st w w'] by blast
qed

theorem snapshot_only_on_animate_witness:
  "processMotion defaultSpaceMouseSettings (handleMotion defaultSpaceMouseSettings
      \<lparr>mx = 55 / 100, my = 5 / 100, mz = 0, mrx = 0, mry = 0, mrz = 0, timestamp = 0\<rparr> initialWorld) =
     Inr (projr (processMotion defaultSpaceMouseSettings (handleMotion defaultSpaceMouseSettings
      \<lparr>mx = 55 / 100, my = 5 / 100, mz = 0, mrx = 0, mry = 0, mrz = 0, timestamp = 0\<rparr> initialWorld))) \<and>
   position (camera (navigation (projr (processMotion defaultSpaceMouseSettings
     (handleMotion defaultSpaceMouseSettings
      \<lparr>mx = 55 / 100, my = 5 / 100, mz = 0, mrx = 0, mry = 0, mrz = 0, timestamp = 0\<rparr> initialWorld))))) =
     Some (1 / 25, 0, 10) \<and>
   history (navigation (projr (processMotion defaultSpaceMouseSettings
     (handleMotion defaultSpaceMouseSettings
      \<lparr>mx = 55 / 100, my = 5 / 100, mz = 0, mrx = 0, mry = 0, mrz = 0, timestamp = 0\<rparr> initialWorld)))) = [] \<and>
   currentHistoryIndex initialState = int (length (history initialState)) - 1 \<and>
   length (history initialState) < maxHistorySize \<and>
   history (animateToPosition (1, 2, 3) None initialState) =
     [defaultCameraState\<lparr>position := Some (1, 2, 3)\<rparr>] \<and>
   history (resetCamera (animateToPosition (1, 2, 3) None initialState)) =
     [defaultCameraState\<lparr>position := Some (1, 2, 3)\<rparr>]"
  using snapshot_only_on_animate [of initialState "(1, 2, 3)" "(0, 0, 1)" defaultSpaceMouseSettings
      "handleMotion defaultSpaceMouseSettings
        \<lparr>mx = 55 / 100, my = 5 / 100, mz = 0, mrx = 0, mry = 0, mrz = 0, timestamp = 0\<rparr> initialWorld"
      "projr (processMotion defaultSpaceMouseSettings (handleMotion defaultSpaceMouseSettings
        \<lparr>mx = 55 / 100, my = 5 / 100, mz = 0, mrx = 0, mry = 0, mrz = 0, timestamp = 0\<rparr> initialWorld))"
      None]
    snapshot_only_on_animate [of "animateToPosition (1, 2, 3) None initialState"]
  by (simp add: pipeline_eval frame_eval nav_eval)

text \<open>
  Claim C3 as stated fails for \<open>resetCamera\<close>: in the initial state the history has no
  entry before the call and none after it. It also fails for \<open>animateToPosition\<close> when
  the index is behind the tail: with three entries and the index on the first, the call
  leaves two entries, not four.
\<close>

theorem reset_takes_no_snapshot:
  "length (history (resetCamera initialState)) \<noteq> length (history initialState) + 1 \<and>
   length (history (animateToPosition (4, 0, 0) None
     (run [AnimateToPosition (1, 0, 0) None, AnimateToPosition (2, 0, 0) None,
           AnimateToPosition (3, 0, 0) None, NavigateBack, NavigateBack] initialState))) \<noteq>
   length (history
     (run [AnimateToPosition (1, 0, 0) None, AnimateToPosition (2, 0, 0) None,
           AnimateToPosition (3, 0, 0) None, NavigateBack, NavigateBack] initialState)) + 1"
  by (simp add: nav_eval)

lemma addToHistory_truncates:
  assumes "- 1 \<le> currentHistoryIndex s"
    and "currentHistoryIndex s < int (length (history s)) - 1"
    and "length (history s) \<le> maxHistorySize"
  shows "history (addToHistory s) = take (nat (currentHistoryIndex s + 1)) (history s) @ [camera s]"
    and "currentHistoryIndex (addToHistory s) = currentHistoryIndex s + 1"
proof -
  have small: "\<not> length (js_slice0 (history s) (currentHistoryIndex s + 1) @ [camera s]) > maxHistorySize"
    using assms by (simp add: js_slice0_def)
  show h: "history (addToHistory s) = take (nat (currentHistoryIndex s + 1)) (history s) @ [camera s]"
    using assms small by (simp add: addToHistory_def Let_def js_slice0_def)
  have "currentHistoryIndex (addToHistory s) = int (length (history (addToHistory s))) - 1"
    by (simp add: addToHistory_def Let_def)
  then show "currentHistoryIndex (addToHistory s) = currentHistoryIndex s + 1"
    unfolding h using assms by simp
qed

text \<open>
  Claim C4. In every state \<open>s\<close> that a trace of store actions reaches and whose index is
  not at the tail of the history, \<open>addToHistory\<close> keeps the entries up to the index,
  drops those after it, appends the current camera and leaves the index on that new last
  entry. From the initial state, commit \<open>A\<close>, commit \<open>B\<close>, \<open>navigateBack\<close>, commit
  \<open>C\<close> (a commit being \<open>addToHistory\<close> with that camera) gives the history \<open>[A, C]\<close>
  with the index at \<open>C\<close>.
\<close>

theorem commit_discards_forward_entries:
  assumes "s = run as initialState"
    and "currentHistoryIndex s < int (length (history s)) - 1"
  shows "history (addToHistory s) = take (nat (currentHistoryIndex s + 1)) (history s) @ [camera s] \<and>
         currentHistoryIndex (addToHistory s) = int (length (history (addToHistory s))) - 1 \<and>
         history (addToHistory s) ! nat (currentHistoryIndex (addToHistory s)) = camera s \<and>
         history (addToHistory ((navigateBack (addToHistory
            ((addToHistory (initialState\<lparr>camera := A\<rparr>))\<lparr>camera := B\<rparr>)))\<lparr>camera := C\<rparr>)) = [A, C] \<and>
         currentHistoryIndex (addToHistory ((navigateBack (addToHistory
            ((addToHistory (initialState\<lparr>camera := A\<rparr>))\<lparr>camera := B\<rparr>)))\<lparr>camera := C\<rparr>)) = 1"
proof -
  have ok: "history_ok s"
    unfolding assms(1) by (rule run_ok [OF initial_ok])
  then have lo: "- 1 \<le> currentHistoryIndex s" and cap: "length (history s) \<le> maxHistorySize"
    by (simp_all add: history_ok_def)
  note T = addToHistory_truncates [OF lo assms(2) cap]
  have len: "length (take (nat (currentHistoryIndex s + 1)) (history s)) = nat (currentHistoryIndex s + 1)"
    using lo assms(2) by simp
  have i: "currentHistoryIndex (addToHistory s) = int (length (history (addToHistory s))) - 1"
    by (simp add: addToHistory_def Let_def)
  have n: "history (addToHistory s) ! nat (currentHistoryIndex (addToHistory s)) = camera s"
    unfolding T using len by (simp add: nth_append)
  have sc: "history (addToHistory ((navigateBack (addToHistory
            ((addToHistory (initialState\<lparr>camera := A\<rparr>))\<lparr>camera := B\<rparr>)))\<lparr>camera := C\<rparr>)) = [A, C] \<and>
         currentHistoryIndex (addToHistory ((navigateBack (addToHistory
            ((addToHistory (initialState\<lparr>camera := A\<rparr>))\<lparr>camera := B\<rparr>)))\<lparr>camera := C\<rparr>)) = 1"
    by (simp add: addToHistory_def navigateBack_def initialState_def Let_def js_slice0_def
          js_index_def spread_def maxHistorySize_def)
  show ?thesis using T(1) i n sc by blast
qed

theorem commit_discards_forward_entries_witness:
  "currentHistoryIndex (run [AnimateToPosition (1, 0, 0) None, AnimateToPosition (2, 0, 0) None,
       NavigateBack, SetCameraPosition (3, 0, 0)] initialState) = 0 \<and>
   length (history (run [AnimateToPosition (1, 0, 0) None, AnimateToPosition (2, 0, 0) None,
       NavigateBack, SetCameraPosition (3, 0, 0)] initialState)) = 2 \<and>
   history (addToHistory (run [AnimateToPosition (1, 0, 0) None, AnimateToPosition (2, 0, 0) None,
       NavigateBack, SetCameraPosition (3, 0, 0)] initialState)) =
     [defaultCameraState\<lparr>position := Some (1, 0, 0)\<rparr>,
      defaultCameraState\<lparr>position := Some (3, 0, 0)\<rparr>] \<and>
   currentHistoryIndex (addToHistory (run [AnimateToPosition (1, 0, 0) None,
       AnimateToPosition (2, 0, 0) None, NavigateBack, SetCameraPosition (3, 0, 0)] initialState)) = 1"
  using commit_discards_forward_entries
    [of "run [AnimateToPosition (1, 0, 0) None, AnimateToPosition (2, 0, 0) None,
       NavigateBack, SetCameraPosition (3, 0, 0)] initialState"
       "[AnimateToPosition (1, 0, 0) None, AnimateToPosition (2, 0, 0) None,
       NavigateBack, SetCameraPosition (3, 0, 0)]", OF refl]
  by (simp add: nav_eval)

text \<open>
  Claim C5, as the code has it. \<open>navigateBack\<close> with the index at the start (or on the
  empty history) and \<open>navigateForward\<close> with the index at the end return the state they
  were given. The initial pose is never stored in the history: after \<open>N\<close> calls of
  \<open>animateToPosition\<close> from the initial state, \<open>1 \<le> N \<le> 50\<close>, already \<open>N - 1\<close>
  calls of \<open>navigateBack\<close> bring the camera to the pose that the first call produced,
  the \<open>N\<close>-th leaves it there, and the \<open>N + 1\<close>-th changes nothing in the state.
\<close>

theorem history_boundaries:
  "(currentHistoryIndex s \<le> 0 \<longrightarrow> navigateBack s = s) \<and>
   (int (length (history s)) - 1 \<le> currentHistoryIndex s \<longrightarrow> navigateForward s = s) \<and>
   (calls \<noteq> [] \<and> length calls \<le> maxHistorySize \<longrightarrow>
      camera ((navigateBack ^^ (length calls - 1)) (run (map animateCall calls) initialState)) =
        camera (perform (animateCall (hd calls)) initialState) \<and>
      camera ((navigateBack ^^ length calls) (run (map animateCall calls) initialState)) =
        camera (perform (animateCall (hd calls)) initialState) \<and>
      navigateBack ((navigateBack ^^ length calls) (run (map animateCall calls) initialState)) =
        (navigateBack ^^ length calls) (run (map animateCall calls) initialState))"
proof -
  have ends: "(currentHistoryIndex s \<le> 0 \<longrightarrow> navigateBack s = s) \<and>
      (int (length (history s)) - 1 \<le> currentHistoryIndex s \<longrightarrow> navigateForward s = s)"
    by (simp add: navigateBack_def navigateForward_def)
  have walk: "camera ((navigateBack ^^ (length calls - 1)) (run (map animateCall calls) initialState)) =
        camera (perform (animateCall (hd calls)) initialState) \<and>
      camera ((navigateBack ^^ length calls) (run (map animateCall calls) initialState)) =
        camera (perform (animateCall (hd calls)) initialState) \<and>
      navigateBack ((navigateBack ^^ length calls) (run (map animateCall calls) initialState)) =
        (navigateBack ^^ length calls) (run (map animateCall calls) initialState)"
    if ne: "calls \<noteq> []" and le: "length calls \<le> maxHistorySize"
  proof -
    obtain c cs where calls: "calls = c # cs" using ne by (cases calls) auto
    let ?s1 = "perform (animateCall c) initialState"
    let ?s = "run (map animateCall calls) initialState"
    have i0: "currentHistoryIndex initialState = int (length (history initialState)) - 1"
      and h0: "history initialState = []"
      by (simp_all add: initialState_def)
    have s1: "history ?s1 = [camera ?s1]" "currentHistoryIndex ?s1 = 0"
      using animate_at_tail [OF i0, of "fst c" "snd c"] h0
      by (simp_all add: animateCall_def maxHistorySize_def)
    have p1: "currentHistoryIndex ?s1 = int (length (history ?s1)) - 1" using s1 by simp
    have p2: "length (history ?s1) + length cs \<le> maxHistorySize" using s1 le calls by simp
    have run_eq: "?s = run (map animateCall cs) ?s1" using calls by simp
    note R = animate_run [OF p1 p2]
    have idx: "currentHistoryIndex ?s = int (length calls) - 1"
      and len: "length (history ?s) = length calls"
      and tk: "take 1 (history ?s) = [camera ?s1]"
      unfolding run_eq using R s1 calls by simp_all
    have first: "history ?s ! 0 = camera ?s1"
    proof -
      have "take 1 (history ?s) ! 0 = history ?s ! 0" by (rule nth_take) simp
      then show ?thesis unfolding tk by simp
    qed
    have cam: "camera ?s = history ?s ! nat (currentHistoryIndex ?s)"
    proof (cases "cs = []")
      case True
      then show ?thesis unfolding run_eq using s1 by simp
    next
      case False
      then have "camera ?s = last (history ?s)" unfolding run_eq using R by simp
      moreover have "history ?s \<noteq> []" using len ne by auto
      moreover have "nat (int (length calls) - 1) = length calls - 1" by simp
      ultimately show ?thesis using idx len by (simp add: last_conv_nth)
    qed
    have a1: "0 \<le> currentHistoryIndex ?s" using idx ne by (cases calls) auto
    have a2: "currentHistoryIndex ?s < int (length (history ?s))" using idx len by simp
    note B = back_funpow [OF a1 a2 cam]
    have c1: "camera ((navigateBack ^^ (length calls - 1)) ?s) = camera ?s1"
      using B [of "length calls - 1"] idx first ne by (simp add: Suc_leI)
    have c2: "camera ((navigateBack ^^ length calls) ?s) = camera ?s1"
      using B [of "length calls"] idx first by simp
    have "currentHistoryIndex ((navigateBack ^^ length calls) ?s) = 0"
      using B [of "length calls"] idx by simp
    then have c3: "navigateBack ((navigateBack ^^ length calls) ?s) = (navigateBack ^^ length calls) ?s"
      by (simp add: navigateBack_stay)
    show ?thesis using c1 c2 c3 calls by simp
  qed
  show ?thesis using ends walk by blast
qed

theorem history_boundaries_witness:
  "[((1, 2, 3), None), ((4, 5, 6), Some (1, 1, 1))] \<noteq> ([] :: (vec3 \<times> vec3 option) list) \<and>
   length [((1, 2, 3), None), ((4, 5, 6), Some (1, 1, 1)) :: vec3 \<times> vec3 option] \<le> maxHistorySize \<and>
   currentHistoryIndex initialState \<le> 0 \<and>
   int (length (history initialState)) - 1 \<le> currentHistoryIndex initialState \<and>
   navigateBack initialState = initialState \<and>
   navigateForward initialState = initialState \<and>
   camera ((navigateBack ^^ 2)
      (run (map animateCall [((1, 2, 3), None), ((4, 5, 6), Some (1, 1, 1))]) initialState)) =
     defaultCameraState\<lparr>position := Some (1, 2, 3)\<rparr>"
  using history_boundaries
    [of initialState "[((1, 2, 3), None), ((4, 5, 6), Some (1, 1, 1))]"]
  by (simp add: nav_eval animateCall_def numeral_2_eq_2)

text \<open>
  Claim C5 as stated fails at \<open>N = 1\<close>: after one \<open>animateToPosition\<close> from the initial
  state, one \<open>navigateBack\<close> leaves the camera at the new pose, not at the initial one.
\<close>

theorem back_does_not_reach_initial_pose:
  "camera ((navigateBack ^^ 1) (run [AnimateToPosition (1, 2, 3) None] initialState))
     \<noteq> camera initialState"
  by (simp add: nav_eval)

section \<open>Properties of the input controller\<close>

subsection \<open>Smoothing\<close>

lemma ema_loop_drop:
  "ema_loop \<alpha> buffer i smoothed = spec_blend_fold \<alpha> smoothed (drop i buffer)"
proof (induction \<alpha> buffer i smoothed rule: ema_loop.induct)
  case (1 \<alpha> buffer i smoothed)
  show ?case
  proof (cases "i < length buffer")
    case True
    then have d: "drop i buffer = buffer ! i # drop (i + 1) buffer"
      by (simp add: Cons_nth_drop_Suc)
    have "ema_loop \<alpha> buffer i smoothed =
            ema_loop \<alpha> buffer (i + 1) (\<alpha> * smoothed + (1 - \<alpha>) * buffer ! i)"
      using True by (subst ema_loop.simps) simp
    also have "\<dots> = spec_blend_fold \<alpha> (\<alpha> * smoothed + (1 - \<alpha>) * buffer ! i) (drop (i + 1) buffer)"
      using "1.IH" [OF True] .
    also have "\<dots> = spec_blend_fold \<alpha> smoothed (drop i buffer)"
      unfolding d by (simp add: spec_blend_fold_def)
    finally show ?thesis .
  next
    case False
    then show ?thesis
      by (subst ema_loop.simps) (simp add: spec_blend_fold_def)
  qed
qed

lemma blend_zero_last: "spec_blend_fold 0 v0 vs = last (v0 # vs)"
  by (induction vs arbitrary: v0) (simp_all add: spec_blend_fold_def)

lemma convex_lower:
  fixes \<alpha> :: real
  assumes "0 \<le> \<alpha>" "\<alpha> \<le> 1" "lo \<le> s" "lo \<le> x"
  shows "lo \<le> \<alpha> * s + (1 - \<alpha>) * x"
proof -
  have "\<alpha> * lo \<le> \<alpha> * s" using assms by (intro mult_left_mono) simp_all
  moreover have "(1 - \<alpha>) * lo \<le> (1 - \<alpha>) * x" using assms by (intro mult_left_mono) simp_all
  moreover have "\<alpha> * lo + (1 - \<alpha>) * lo = lo" by (simp add: algebra_simps)
  ultimately show ?thesis by linarith
qed

lemma convex_upper:
  fixes \<alpha> :: real
  assumes "0 \<le> \<alpha>" "\<alpha> \<le> 1" "s \<le> hi" "x \<le> hi"
  shows "\<alpha> * s + (1 - \<alpha>) * x \<le> hi"
proof -
  have "\<alpha> * s \<le> \<alpha> * hi" using assms by (intro mult_left_mono) simp_all
  moreover have "(1 - \<alpha>) * x \<le> (1 - \<alpha>) * hi" using assms by (intro mult_left_mono) simp_all
  moreover have "\<alpha> * hi + (1 - \<alpha>) * hi = hi" by (simp add: algebra_simps)
  ultimately show ?thesis by linarith
qed

lemma blend_fold_range:
  assumes "0 \<le> \<alpha>" "\<alpha> \<le> 1" "lo \<le> v0" "v0 \<le> hi" "\<forall>v \<in> set vs. lo \<le> v \<and> v \<le> hi"
  shows "lo \<le> spec_blend_fold \<alpha> v0 vs \<and> spec_blend_fold \<alpha> v0 vs \<le> hi"
  using assms(3-5)
proof (induction vs arbitrary: v0)
  case Nil
  then show ?case by (simp add: spec_blend_fold_def)
next
  case (Cons x xs)
  have lo: "lo \<le> \<alpha> * v0 + (1 - \<alpha>) * x"
    using convex_lower [OF assms(1,2)] Cons.prems by simp
  have hi: "\<alpha> * v0 + (1 - \<alpha>) * x \<le> hi"
    using convex_upper [OF assms(1,2)] Cons.prems by simp
  have "spec_blend_fold \<alpha> v0 (x # xs) = spec_blend_fold \<alpha> (\<alpha> * v0 + (1 - \<alpha>) * x) xs"
    by (simp add: spec_blend_fold_def)
  then show ?case using Cons.IH [OF lo hi] Cons.prems by simp
qed

lemma calculateSmoothedValue_fold:
  assumes "smoothingBuffer c a = v0 # vs"
  shows "calculateSmoothedValue c a \<alpha> = spec_blend_fold \<alpha> v0 vs"
proof (cases "\<alpha> = 0")
  case True
  have "(v0 # vs) ! length vs = last (v0 # vs)"
    by (simp add: last_conv_nth)
  then show ?thesis using assms True
    by (simp add: calculateSmoothedValue_def blend_zero_last)
next
  case False
  then show ?thesis using assms
    by (simp add: calculateSmoothedValue_def ema_loop_drop)
qed

text \<open>
  Claim C2. For a coefficient \<open>\<alpha>\<close> in \<open>[0, 1]\<close> and a non-empty window \<open>v0 # vs\<close>
  (oldest value first) of an axis, \<open>calculateSmoothedValue\<close> returns the left fold of
  the blend \<open>\<alpha> \<cdot> smoothed + (1 - \<alpha>) \<cdot> next\<close> that starts from \<open>v0\<close> and runs over \<open>vs\<close>
  in order; with \<open>\<alpha> = 0\<close> it returns the newest value of the window.
\<close>

theorem smoothing_is_blend_fold:
  assumes "0 \<le> \<alpha>" and "\<alpha> \<le> 1" and "smoothingBuffer c a = v0 # vs"
  shows "calculateSmoothedValue c a \<alpha> = spec_blend_fold \<alpha> v0 vs \<and>
         (\<alpha> = 0 \<longrightarrow> calculateSmoothedValue c a \<alpha> = last (v0 # vs))"
  using calculateSmoothedValue_fold [OF assms(3)] blend_zero_last by simp

theorem smoothing_is_blend_fold_witness:
  "(0 :: real) \<le> 1 / 2 \<and> (1 / 2 :: real) \<le> 1 \<and>
   smoothingBuffer (initialController\<lparr>smoothingBuffer := (\<lambda>a. [1, 2, 4])\<rparr>) X = 1 # [2, 4] \<and>
   calculateSmoothedValue (initialController\<lparr>smoothingBuffer := (\<lambda>a. [1, 2, 4])\<rparr>) X (1 / 2) = 11 / 4 \<and>
   calculateSmoothedValue (initialController\<lparr>smoothingBuffer := (\<lambda>a. [1, 2, 4])\<rparr>) X 0 = 4"
  using smoothing_is_blend_fold
      [of "1 / 2" "initialController\<lparr>smoothingBuffer := (\<lambda>a. [1, 2, 4])\<rparr>" X 1 "[2, 4]"]
    smoothing_is_blend_fold
      [of 0 "initialController\<lparr>smoothingBuffer := (\<lambda>a. [1, 2, 4])\<rparr>" X 1 "[2, 4]"]
  by (simp add: spec_blend_fold_def)

text \<open>Rounding to a double: the error of one rounding, and when the result is finite.\<close>

lemma round_half_even_near: "\<bar>of_int (round_half_even y) - y\<bar> \<le> 1 / 2"
proof -
  have "of_int \<lfloor>y\<rfloor> \<le> y" "y < of_int \<lfloor>y\<rfloor> + 1" by linarith+
  then show ?thesis
    by (auto simp: round_half_even_def Let_def)
qed

lemma powr_half: "(2::real) powr (a - 1) = 2 powr a / 2"
  by (simp add: powr_diff)

lemma ulp_half_le:
  assumes "x \<noteq> 0"
  shows "2 powr of_int (double_ulp_exponent x) / 2 \<le> \<bar>x\<bar> * 2 powr (- 53) + 2 powr (- 1075)"
proof (cases "- 1074 \<le> \<lfloor>log 2 \<bar>x\<bar>\<rfloor> - 52")
  case True
  then have e: "double_ulp_exponent x = \<lfloor>log 2 \<bar>x\<bar>\<rfloor> - 52"
    by (simp add: double_ulp_exponent_def)
  have "of_int (\<lfloor>log 2 \<bar>x\<bar>\<rfloor> - 52) - 1 \<le> log 2 \<bar>x\<bar> + (- 53)" by simp
  then have "2 powr (of_int (\<lfloor>log 2 \<bar>x\<bar>\<rfloor> - 52) - 1) \<le> 2 powr (log 2 \<bar>x\<bar> + (- 53))"
    by (simp only: powr_le_cancel_iff)
  also have "\<dots> = \<bar>x\<bar> * 2 powr (- 53)"
    using assms by (simp only: powr_add) simp
  finally have "2 powr of_int (double_ulp_exponent x) / 2 \<le> \<bar>x\<bar> * 2 powr (- 53)"
    unfolding e powr_half .
  moreover have "(0::real) \<le> 2 powr (- 1075)" by simp
  ultimately show ?thesis by linarith
next
  case False
  then have e: "double_ulp_exponent x = - 1074"
    by (simp add: double_ulp_exponent_def)
  have "(2::real) powr (- 1074 - 1) = 2 powr (- 1074) / 2" by (rule powr_half)
  then have "2 powr of_int (double_ulp_exponent x) / 2 = (2::real) powr (- 1075)"
    unfolding e by simp
  moreover have "0 \<le> \<bar>x\<bar> * 2 powr (- 53)" by simp
  ultimately show ?thesis by linarith
qed

lemma round_double_error:
  assumes "round_double x = Some r"
  shows "\<bar>r - x\<bar> \<le> \<bar>x\<bar> * 2 powr (- 53) + 2 powr (- 1075)"
proof (cases "x = 0")
  case True
  then show ?thesis using assms by (simp add: round_double_def)
next
  case False
  let ?g = "(2::real) powr of_int (double_ulp_exponent x)"
  have g: "0 < ?g" by simp
  have r: "r = of_int (round_half_even (x / ?g)) * ?g"
    using assms False by (simp add: round_double_def Let_def split: if_splits)
  have "r - x = (of_int (round_half_even (x / ?g)) - x / ?g) * ?g"
    unfolding r using g by (simp add: algebra_simps)
  then have "\<bar>r - x\<bar> = \<bar>of_int (round_half_even (x / ?g)) - x / ?g\<bar> * ?g"
    using g by (simp add: abs_mult)
  also have "\<dots> \<le> 1 / 2 * ?g"
    using round_half_even_near [of "x / ?g"] g by (intro mult_right_mono) simp_all
  also have "\<dots> = ?g / 2" by simp
  also have "\<dots> \<le> \<bar>x\<bar> * 2 powr (- 53) + 2 powr (- 1075)"
    by (rule ulp_half_le [OF False])
  finally show ?thesis .
qed

lemma round_double_finite:
  assumes "\<bar>x\<bar> \<le> 2 powr 1001"
  shows "\<exists>r. round_double x = Some r"
proof (cases "x = 0")
  case True
  then show ?thesis by (simp add: round_double_def)
next
  case False
  let ?g = "(2::real) powr of_int (double_ulp_exponent x)"
  let ?r = "of_int (round_half_even (x / ?g)) * ?g"
  have g: "0 < ?g" by simp
  have "?r - x = (of_int (round_half_even (x / ?g)) - x / ?g) * ?g"
    using g by (simp add: algebra_simps)
  then have "\<bar>?r - x\<bar> = \<bar>of_int (round_half_even (x / ?g)) - x / ?g\<bar> * ?g"
    using g by (simp add: abs_mult)
  also have "\<dots> \<le> 1 / 2 * ?g"
    using round_half_even_near [of "x / ?g"] g by (intro mult_right_mono) simp_all
  also have "\<dots> = ?g / 2" by simp
  also have "\<dots> \<le> \<bar>x\<bar> * 2 powr (- 53) + 2 powr (- 1075)"
    by (rule ulp_half_le [OF False])
  finally have err: "\<bar>?r - x\<bar> \<le> \<bar>x\<bar> * 2 powr (- 53) + 2 powr (- 1075)" .
  have a: "\<bar>x\<bar> * 2 powr (- 53) \<le> 2 powr 1001 * 2 powr (- 53)"
    using assms by (intro mult_right_mono) simp_all
  have b: "(2::real) powr 1001 * 2 powr (- 53) \<le> 2 powr 1001"
  proof -
    have "(2::real) powr (- 53) \<le> 2 powr 0" by (intro powr_mono) simp_all
    then have "(2::real) powr 1001 * 2 powr (- 53) \<le> 2 powr 1001 * 1"
      by (intro mult_left_mono) simp_all
    then show ?thesis by simp
  qed
  have c: "(2::real) powr (- 1075) \<le> 2 powr 1001" by (intro powr_mono) simp_all
  have d: "(2::real) powr 1001 + 2 powr 1001 + 2 powr 1001 < 2 powr 1024"
  proof -
    have "(2::real) powr 1001 + 2 powr 1001 + 2 powr 1001 \<le> 2 powr 2 * 2 powr 1001" by simp
    also have "\<dots> = 2 powr (2 + 1001)" by (simp only: powr_add)
    also have "\<dots> < 2 powr 1024" by (intro powr_less_mono) simp_all
    finally show ?thesis .
  qed
  have "\<bar>?r\<bar> \<le> \<bar>x\<bar> + \<bar>?r - x\<bar>" by linarith
  then have "\<bar>?r\<bar> < 2 powr 1024" using err a b c d assms by linarith
  then show ?thesis using False by (simp add: round_double_def Let_def)
qed

lemma round_double_bounded:
  assumes "\<bar>z\<bar> \<le> c" and "c \<le> 2 powr 1001"
  shows "\<exists>r. round_double z = Some r \<and> \<bar>r - z\<bar> \<le> c * 2 powr (- 53) + 2 powr (- 1075)"
proof -
  have "\<bar>z\<bar> \<le> 2 powr 1001" using assms by linarith
  then obtain r where r: "round_double z = Some r"
    using round_double_finite by blast
  have "\<bar>z\<bar> * 2 powr (- 53) \<le> c * 2 powr (- 53)"
    using assms(1) by (intro mult_right_mono) simp_all
  then have "\<bar>r - z\<bar> \<le> c * 2 powr (- 53) + 2 powr (- 1075)"
    using round_double_error [OF r] by linarith
  then show ?thesis using r by blast
qed

lemma roundoff_small: "(2::real) powr (- 53) \<le> 1 / 64"
proof -
  have "(2::real) powr (- 53) \<le> 2 powr (- 6)" by (intro powr_mono) simp_all
  also have "\<dots> = 1 / 64" by (simp add: powr_neg_numeral)
  finally show ?thesis .
qed

lemma underflow_small: "(2::real) powr (- 1075) \<le> 2 powr (- 53) / 64"
proof -
  have "(2::real) powr (- 1075) \<le> 2 powr (- 53 + - 6)" by (intro powr_mono) simp_all
  also have "\<dots> = 2 powr (- 53) * 2 powr (- 6)" by (simp only: powr_add)
  also have "\<dots> = 2 powr (- 53) / 64" by (simp add: powr_neg_numeral)
  finally show ?thesis .
qed

lemma double_blend_error:
  assumes al: "0 \<le> \<alpha>" "\<alpha> \<le> 1"
    and s: "\<bar>s\<bar> \<le> M" and x: "\<bar>x\<bar> \<le> M" and M: "M \<le> 2 powr 998"
  shows "\<exists>r. double_blend \<alpha> s x = Some r \<and>
           \<bar>r - (\<alpha> * s + (1 - \<alpha>) * x)\<bar> \<le> 8 * (2 powr (- 53) * M) + 8 * 2 powr (- 1075)"
proof -
  define U :: real where "U = 2 powr (- 53)"
  define H :: real where "H = 2 powr (- 1075)"
  define a where "a = U * M"
  have U: "0 \<le> U" "U \<le> 1 / 64" unfolding U_def using roundoff_small by simp_all
  have H: "0 \<le> H" "H \<le> U / 64" unfolding U_def H_def using underflow_small by simp_all
  have M0: "0 \<le> M" using s by linarith
  have a0: "0 \<le> a" unfolding a_def using U M0 by simp
  have big: "(2::real) powr 998 \<le> 2 powr 1001" by (intro powr_mono) simp_all
  have big4: "4 * (2::real) powr 998 \<le> 2 powr 1001"
  proof -
    have "4 * (2::real) powr 998 = 2 powr 2 * 2 powr 998" by simp
    also have "\<dots> = 2 powr (2 + 998)" by (simp only: powr_add)
    also have "\<dots> \<le> 2 powr 1001" by (intro powr_mono) simp_all
    finally show ?thesis .
  qed
  have one: "(1::real) \<le> 2 powr 1001"
  proof -
    have "(2::real) powr 0 \<le> 2 powr 1001" by (intro powr_mono) simp_all
    then show ?thesis by simp
  qed
  have HM: "H * M \<le> a / 64"
  proof -
    have "H * M \<le> U / 64 * M" using H M0 by (intro mult_right_mono) simp_all
    then show ?thesis by (simp add: a_def)
  qed
  have Ua: "U * a \<le> a / 64"
  proof -
    have "U * a \<le> 1 / 64 * a" using U a0 by (intro mult_right_mono) simp_all
    then show ?thesis by simp
  qed
  have UH: "U * H \<le> H / 64"
  proof -
    have "U * H \<le> 1 / 64 * H" using U H by (intro mult_right_mono) simp_all
    then show ?thesis by simp
  qed
  \<comment> \<open>\<open>p = smoothingFactor * smoothed\<close>\<close>
  have as: "\<bar>\<alpha> * s\<bar> \<le> M"
  proof -
    have "\<bar>\<alpha>\<bar> * \<bar>s\<bar> \<le> 1 * M" using al s by (intro mult_mono) simp_all
    then show ?thesis by (simp add: abs_mult)
  qed
  obtain p where p: "double_mul \<alpha> s = Some p" and pe: "\<bar>p - \<alpha> * s\<bar> \<le> a + H"
    using round_double_bounded [OF as] M big
    unfolding double_mul_def a_def U_def H_def by (auto simp: mult.commute)
  \<comment> \<open>\<open>q = 1 - smoothingFactor\<close>\<close>
  have aq: "\<bar>1 - \<alpha>\<bar> \<le> 1" using al by simp
  obtain q where q: "double_sub 1 \<alpha> = Some q" and qe: "\<bar>q - (1 - \<alpha>)\<bar> \<le> U + H"
    using round_double_bounded [OF aq one]
    unfolding double_sub_def U_def H_def by auto
  have q2: "\<bar>q\<bar> \<le> 2" using qe aq U H by linarith
  \<comment> \<open>\<open>r = q * next\<close>\<close>
  have qx: "\<bar>q * x\<bar> \<le> 2 * M"
  proof -
    have "\<bar>q\<bar> * \<bar>x\<bar> \<le> 2 * M" using q2 x by (intro mult_mono) simp_all
    then show ?thesis by (simp add: abs_mult)
  qed
  have M2: "2 * M \<le> 2 powr 1001" using M big4 M0 by linarith
  obtain r where r: "double_mul q x = Some r" and re: "\<bar>r - q * x\<bar> \<le> 2 * a + H"
    using round_double_bounded [OF qx M2]
    unfolding double_mul_def a_def U_def H_def by (auto simp: mult.commute mult.left_commute)
  \<comment> \<open>the error that \<open>q\<close> carries into the product\<close>
  have qd: "\<bar>q * x - (1 - \<alpha>) * x\<bar> \<le> a + a / 64"
  proof -
    have "\<bar>q * x - (1 - \<alpha>) * x\<bar> = \<bar>q - (1 - \<alpha>)\<bar> * \<bar>x\<bar>"
      by (simp add: abs_mult [symmetric] algebra_simps)
    also have "\<dots> \<le> (U + H) * M"
      using qe x M0 by (intro mult_mono) simp_all
    also have "\<dots> = a + H * M" by (simp add: a_def algebra_simps)
    finally show ?thesis using HM by linarith
  qed
  \<comment> \<open>\<open>p + r\<close>\<close>
  have e: "\<bar>\<alpha> * s + (1 - \<alpha>) * x\<bar> \<le> M"
  proof -
    have "\<bar>\<alpha> * s\<bar> \<le> \<alpha> * M" using al s by (simp add: abs_mult mult_left_mono)
    moreover have "\<bar>(1 - \<alpha>) * x\<bar> \<le> (1 - \<alpha>) * M" using al x by (simp add: abs_mult mult_left_mono)
    moreover have "\<alpha> * M + (1 - \<alpha>) * M = M" by (simp add: algebra_simps)
    ultimately show ?thesis by linarith
  qed
  have te: "\<bar>p + r - (\<alpha> * s + (1 - \<alpha>) * x)\<bar> \<le> 4 * a + a / 64 + 2 * H"
    using pe re qd by linarith
  have a_le: "a \<le> M"
  proof -
    have "U * M \<le> 1 * M" using U M0 by (intro mult_right_mono) simp_all
    then show ?thesis by (simp add: a_def)
  qed
  have tb: "\<bar>p + r\<bar> \<le> M + 4 * a + a / 64 + 2 * H" using te e by linarith
  have tb3: "M + 4 * a + a / 64 + 2 * H \<le> 2 powr 1001"
  proof -
    have "H \<le> 1" using H U by linarith
    then have "M + 4 * a + a / 64 + 2 * H \<le> 6 * M + 2" using a_le M0 by linarith
    also have "\<dots> \<le> 2 powr 1001"
    proof -
      have "6 * M + 2 \<le> 8 * 2 powr 998" 
      proof -
        have "(2::real) powr 1 \<le> 2 powr 998" by (intro powr_mono) simp_all
        then show ?thesis using M by simp
      qed
      also have "\<dots> = 2 powr 3 * 2 powr 998" by simp
      also have "\<dots> = 2 powr (3 + 998)" by (simp only: powr_add)
      finally show ?thesis by simp
    qed
    finally show ?thesis .
  qed
  obtain t where t: "double_add p r = Some t"
    and t_err: "\<bar>t - (p + r)\<bar> \<le> (M + 4 * a + a / 64 + 2 * H) * U + H"
    using round_double_bounded [OF tb tb3]
    unfolding double_add_def U_def H_def by auto
  have "(M + 4 * a + a / 64 + 2 * H) * U = a + 4 * (U * a) + (U * a) / 64 + 2 * (U * H)"
    by (simp add: a_def algebra_simps)
  then have t_err': "\<bar>t - (p + r)\<bar> \<le> a + 4 * (a / 64) + (a / 64) / 64 + 2 * (H / 64) + H"
    using t_err Ua UH by linarith
  have "\<bar>t - (\<alpha> * s + (1 - \<alpha>) * x)\<bar> \<le> 8 * a + 8 * H"
    using t_err' te a0 H by linarith
  moreover have "double_blend \<alpha> s x = Some t"
    by (simp add: double_blend_def p q r t)
  ultimately show ?thesis unfolding a_def U_def H_def by blast
qed

declare ema_loop_double.simps [simp del]

lemma blend_step_bound:
  fixes M :: real
  shows "8 * (2 powr (- 53) * M) + 8 * 2 powr (- 1075) = 2 powr (- 50) * (M + 2 powr (- 1022))"
proof -
  have "(8::real) * 2 powr (- 53) = 2 powr 3 * 2 powr (- 53)" by simp
  also have "\<dots> = 2 powr (3 + - 53)" by (simp only: powr_add)
  finally have a: "(8::real) * 2 powr (- 53) = 2 powr (- 50)" by simp
  have "(2::real) powr (- 50) * 2 powr (- 1022) = 2 powr (- 50 + - 1022)" by (simp only: powr_add)
  also have "\<dots> = 2 powr (3 + - 1075)" by simp
  also have "\<dots> = 2 powr 3 * 2 powr (- 1075)" by (simp only: powr_add)
  finally have b: "(2::real) powr (- 50) * 2 powr (- 1022) = 8 * 2 powr (- 1075)" by simp
  have "8 * (2 powr (- 53) * M) + 8 * 2 powr (- 1075) =
        (8 * 2 powr (- 53)) * M + 8 * 2 powr (- 1075)"
    by (simp only: mult.assoc)
  also have "\<dots> = 2 powr (- 50) * M + 2 powr (- 50) * 2 powr (- 1022)"
    by (simp only: a b)
  also have "\<dots> = 2 powr (- 50) * (M + 2 powr (- 1022))"
    by (simp only: distrib_left)
  finally show ?thesis .
qed

lemma ema_loop_double_error:
  assumes "0 \<le> \<alpha>" and "\<alpha> \<le> 1"
    and "\<forall>v \<in> set buffer. \<bar>v\<bar> \<le> b"
    and "\<bar>se\<bar> \<le> b"
    and "\<bar>sd - se\<bar> \<le> d"
    and "(1 + 2 powr (- 50)) ^ (length buffer - i) * (d + b + 2 powr (- 1022)) \<le> 2 powr 998"
  shows "\<exists>r. ema_loop_double \<alpha> buffer i sd = Some r \<and>
           \<bar>r - spec_blend_fold \<alpha> se (drop i buffer)\<bar> \<le>
             (1 + 2 powr (- 50)) ^ (length buffer - i) * (d + b + 2 powr (- 1022)) -
             (b + 2 powr (- 1022))"
  using assms(4-6)
proof (induction "length buffer - i" arbitrary: i sd se d)
  case 0
  then have "\<not> i < length buffer" by simp
  then have "ema_loop_double \<alpha> buffer i sd = Some sd" "drop i buffer = []"
    by (simp_all add: ema_loop_double.simps)
  then show ?case using 0 by (simp add: spec_blend_fold_def)
next
  case (Suc n)
  define g :: real where "g = 2 powr (- 50)"
  define rho :: real where "rho = 2 powr (- 1022)"
  have g0: "0 \<le> g" and rho0: "0 \<le> rho" by (simp_all add: g_def rho_def)
  have lt: "i < length buffer" using Suc.hyps(2) by simp
  have n: "n = length buffer - (i + 1)" using Suc.hyps(2) by simp
  have len: "length buffer - i = Suc n" using Suc.hyps(2) by simp
  let ?x = "buffer ! i"
  have x: "\<bar>?x\<bar> \<le> b" using assms(3) lt by simp
  have d0: "0 \<le> d" using Suc.prems(2) by linarith
  have b0: "0 \<le> b" using Suc.prems(1) by linarith
  have pow1: "1 \<le> (1 + g) ^ Suc n" using g0 by (intro one_le_power) simp
  have tot0: "0 \<le> d + b + rho" using d0 b0 rho0 by simp
  have cap0: "(1 + g) ^ Suc n * (d + b + rho) \<le> 2 powr 998"
    using Suc.prems(3) unfolding len g_def rho_def .
  have ge: "d + b + rho \<le> (1 + g) ^ Suc n * (d + b + rho)"
    using mult_right_mono [OF pow1 tot0] by (simp only: mult_1)
  have "b + d \<le> d + b + rho" using rho0 by linarith
  then have M: "b + d \<le> 2 powr 998"
    by (rule order_trans [OF _ order_trans [OF ge cap0]])
  have sdM: "\<bar>sd\<bar> \<le> b + d" using Suc.prems(1,2) by linarith
  have xM: "\<bar>?x\<bar> \<le> b + d" using x d0 by linarith
  obtain sd' where step: "double_blend \<alpha> sd ?x = Some sd'"
    and err: "\<bar>sd' - (\<alpha> * sd + (1 - \<alpha>) * ?x)\<bar> \<le> g * (b + d + rho)"
    using double_blend_error [OF assms(1,2) sdM xM M]
    unfolding blend_step_bound g_def rho_def by blast
  define se' where "se' = \<alpha> * se + (1 - \<alpha>) * ?x"
  define d' where "d' = g * (b + d + rho) + d"
  have se'b: "\<bar>se'\<bar> \<le> b"
  proof -
    have "- b \<le> se'" unfolding se'_def
      using convex_lower [OF assms(1,2), of "- b" se ?x] Suc.prems(1) x by linarith
    moreover have "se' \<le> b" unfolding se'_def
      using convex_upper [OF assms(1,2), of se b ?x] Suc.prems(1) x by linarith
    ultimately show ?thesis by linarith
  qed
  have diff: "\<bar>sd' - se'\<bar> \<le> d'"
  proof -
    have "\<alpha> * sd + (1 - \<alpha>) * ?x - se' = \<alpha> * (sd - se)"
      by (simp add: se'_def algebra_simps)
    then have "\<bar>\<alpha> * sd + (1 - \<alpha>) * ?x - se'\<bar> = \<alpha> * \<bar>sd - se\<bar>"
      using assms(1) by (simp add: abs_mult)
    also have "\<dots> \<le> 1 * d"
      using assms(1,2) Suc.prems(2) by (intro mult_mono) simp_all
    finally have "\<bar>\<alpha> * sd + (1 - \<alpha>) * ?x - se'\<bar> \<le> d" by simp
    then show ?thesis using err unfolding d'_def by linarith
  qed
  have grow: "d' + b + rho = (1 + g) * (d + b + rho)"
    by (simp add: d'_def algebra_simps)
  have pw: "(1 + g) ^ n * (d' + b + rho) = (1 + g) ^ Suc n * (d + b + rho)"
    unfolding grow by simp
  have cap_n: "(1 + g) ^ n * (d' + b + rho) \<le> 2 powr 998"
    unfolding pw by (rule cap0)
  have cap: "(1 + 2 powr (- 50)) ^ (length buffer - (i + 1)) * (d' + b + 2 powr (- 1022)) \<le> 2 powr 998"
    using cap_n unfolding g_def rho_def n .
  obtain r where r: "ema_loop_double \<alpha> buffer (i + 1) sd' = Some r"
    and rb: "\<bar>r - spec_blend_fold \<alpha> se' (drop (i + 1) buffer)\<bar> \<le>
        (1 + 2 powr (- 50)) ^ (length buffer - (i + 1)) * (d' + b + 2 powr (- 1022)) -
        (b + 2 powr (- 1022))"
    using Suc.hyps(1) [OF n se'b diff cap] by blast
  have loop: "ema_loop_double \<alpha> buffer i sd = Some r"
    using lt step r by (subst ema_loop_double.simps) simp
  have "drop i buffer = ?x # drop (i + 1) buffer"
    using lt by (simp add: Cons_nth_drop_Suc)
  then have fold: "spec_blend_fold \<alpha> se (drop i buffer) = spec_blend_fold \<alpha> se' (drop (i + 1) buffer)"
    by (simp add: spec_blend_fold_def se'_def)
  have rb': "\<bar>r - spec_blend_fold \<alpha> se' (drop (i + 1) buffer)\<bar> \<le>
      (1 + g) ^ n * (d' + b + rho) - (b + rho)"
    using rb unfolding n [symmetric] g_def rho_def .
  have fin: "\<bar>r - spec_blend_fold \<alpha> se (drop i buffer)\<bar> \<le>
      (1 + g) ^ Suc n * (d + b + rho) - (b + rho)"
    using rb' unfolding pw fold .
  have "\<bar>r - spec_blend_fold \<alpha> se (drop i buffer)\<bar> \<le>
      (1 + 2 powr (- 50)) ^ (length buffer - i) * (d + b + 2 powr (- 1022)) - (b + 2 powr (- 1022))"
    using fin unfolding len g_def rho_def .
  then show ?case using loop by blast
qed

lemma blend_tolerance_nonneg: "0 \<le> b \<Longrightarrow> 0 \<le> blend_tolerance n b"
proof -
  assume b: "0 \<le> b"
  have "(1::real) \<le> (1 + 2 powr (- 50)) ^ (n - 1)" by (intro one_le_power) simp
  then have "0 \<le> (1 + 2 powr (- 50)) ^ (n - 1) - (1::real)" by simp
  moreover have "0 \<le> b + 2 powr (- 1022)" using b by simp
  ultimately show ?thesis unfolding blend_tolerance_def by (rule mult_nonneg_nonneg)
qed

text \<open>The doubles of the example: the literals \<open>0.3\<close> and \<open>0.1\<close>, and one blend of them.\<close>

lemma round_double_in_binade:
  assumes "2 powr of_int k \<le> \<bar>x\<bar>" and "\<bar>x\<bar> < 2 powr (of_int k + 1)"
    and "- 1022 \<le> k" and "k \<le> 1000"
  shows "round_double x =
           Some (of_int (round_half_even (x * 2 powr of_int (52 - k))) / 2 powr of_int (52 - k))"
proof -
  have pos: "0 < \<bar>x\<bar>" using assms(1) powr_gt_zero [of 2 "of_int k"] by linarith
  then have x0: "x \<noteq> 0" by simp
  have "of_int k \<le> log 2 \<bar>x\<bar>" using assms(1) pos by (simp add: le_log_iff)
  moreover have "log 2 \<bar>x\<bar> < of_int k + 1" using assms(2) pos by (simp add: log_less_iff)
  ultimately have fl: "\<lfloor>log 2 \<bar>x\<bar>\<rfloor> = k" by linarith
  have e: "double_ulp_exponent x = k - 52"
    using assms(3) by (simp add: double_ulp_exponent_def fl)
  have "(2::real) powr (of_int k + 1) \<le> 2 powr 1001"
    using assms(4) by (intro powr_mono) simp_all
  then have "\<bar>x\<bar> \<le> 2 powr 1001" using assms(2) by linarith
  then obtain r where r: "round_double x = Some r" using round_double_finite by blast
  then have "r = of_int (round_half_even (x / 2 powr of_int (k - 52))) * 2 powr of_int (k - 52)"
    using x0 e by (simp add: round_double_def Let_def split: if_splits)
  moreover have "(2::real) powr of_int (k - 52) = 1 / 2 powr of_int (52 - k)"
  proof -
    have "(2::real) powr of_int (k - 52) = 2 powr (- of_int (52 - k))" by simp
    then show ?thesis by (simp only: powr_minus_divide)
  qed
  ultimately show ?thesis using r by simp
qed

lemma literal_03: "round_double (3 / 10) = Some (5404319552844595 / 18014398509481984)"
  using round_double_in_binade [of "- 2" "3 / 10"]
  by (simp add: round_half_even_def Let_def powr_neg_numeral)

lemma literal_01: "round_double (1 / 10) = Some (3602879701896397 / 36028797018963968)"
  using round_double_in_binade [of "- 4" "1 / 10"]
  by (simp add: round_half_even_def Let_def powr_neg_numeral)

lemma example_product_1:
  "double_mul (3602879701896397 / 36028797018963968)
     (5404319552844595 / 18014398509481984)
     = Some (1080863910568919 / 36028797018963968)"
  unfolding double_mul_def
  using round_double_in_binade [of "- 6" "(3602879701896397 / 36028797018963968) * (5404319552844595 / 18014398509481984)"]
  by (simp add: round_half_even_def Let_def powr_neg_numeral)

lemma example_complement:
  "double_sub 1 (3602879701896397 / 36028797018963968)
     = Some (8106479329266893 / 9007199254740992)"
  unfolding double_sub_def
  using round_double_in_binade [of "- 1" "1 - (3602879701896397 / 36028797018963968)"]
  by (simp add: round_half_even_def Let_def powr_neg_numeral)

lemma example_product_2:
  "double_mul (8106479329266893 / 9007199254740992)
     (5404319552844595 / 18014398509481984)
     = Some (607985949695017 / 2251799813685248)"
  unfolding double_mul_def
  using round_double_in_binade [of "- 2" "(8106479329266893 / 9007199254740992) * (5404319552844595 / 18014398509481984)"]
  by (simp add: round_half_even_def Let_def powr_neg_numeral)

lemma example_sum:
  "double_add (1080863910568919 / 36028797018963968)
     (607985949695017 / 2251799813685248)
     = Some (1351079888211149 / 4503599627370496)"
  unfolding double_add_def
  using round_double_in_binade [of "- 2" "(1080863910568919 / 36028797018963968) + (607985949695017 / 2251799813685248)"]
  by (simp add: round_half_even_def Let_def powr_neg_numeral)

lemma example_blend:
  "double_blend (3602879701896397 / 36028797018963968)
     (5404319552844595 / 18014398509481984)
     (5404319552844595 / 18014398509481984)
     = Some (1351079888211149 / 4503599627370496)"
  unfolding double_blend_def
  by (simp only: example_product_1 example_complement example_product_2 example_sum option.case)

lemma example_loop:
  "ema_loop_double (3602879701896397 / 36028797018963968) [(5404319552844595 / 18014398509481984),
      (5404319552844595 / 18014398509481984)] 1
     (5404319552844595 / 18014398509481984)
     = Some (1351079888211149 / 4503599627370496)"
proof -
  have len: "(1::nat) < length [(5404319552844595 / 18014398509481984) :: real, (5404319552844595 / 18014398509481984)]"
    and fin: "\<not> (1 + 1 :: nat) < length [(5404319552844595 / 18014398509481984) :: real, (5404319552844595 / 18014398509481984)]"
    and nth: "[(5404319552844595 / 18014398509481984) :: real, (5404319552844595 / 18014398509481984)] ! 1 = (5404319552844595 / 18014398509481984)"
    by simp_all
  have last: "ema_loop_double (3602879701896397 / 36028797018963968) [(5404319552844595 / 18014398509481984), (5404319552844595 / 18014398509481984)] (1 + 1) (1351079888211149 / 4503599627370496) = Some (1351079888211149 / 4503599627370496)"
    by (subst ema_loop_double.simps) (simp only: fin if_False)
  show ?thesis
    by (subst ema_loop_double.simps) (simp only: len nth example_blend last if_True option.case)
qed

lemma example_call:
  "calculateSmoothedValue_double
     (initialController\<lparr>smoothingBuffer := (\<lambda>a. [(5404319552844595 / 18014398509481984), (5404319552844595 / 18014398509481984)])\<rparr>) X (3602879701896397 / 36028797018963968) = Some (1351079888211149 / 4503599627370496)"
proof -
  have "calculateSmoothedValue_double
     (initialController\<lparr>smoothingBuffer := (\<lambda>a. [(5404319552844595 / 18014398509481984), (5404319552844595 / 18014398509481984)])\<rparr>) X (3602879701896397 / 36028797018963968) =
     ema_loop_double (3602879701896397 / 36028797018963968) [(5404319552844595 / 18014398509481984), (5404319552844595 / 18014398509481984)] 1 (5404319552844595 / 18014398509481984)"
    by (simp add: calculateSmoothedValue_double_def)
  then show ?thesis by (simp only: example_loop)
qed

text \<open>
  Claim C10, as the code has it. The code blends in double arithmetic, so the value it
  returns can leave the range of its inputs in the last bits. For a coefficient \<open>\<alpha>\<close>
  in \<open>[0, 1]\<close> and a non-empty window of \<open>n\<close> values in \<open>[lo, hi]\<close> whose magnitudes
  stay clear of overflow, \<open>calculateSmoothedValue\<close> returns a finite value that differs
  from the exact value of the fold by at most \<open>blend_tolerance n (max \<bar>lo\<bar> \<bar>hi\<bar>)\<close>,
  and so lies in \<open>[lo, hi]\<close> widened by that tolerance; the exact value lies in
  \<open>[lo, hi]\<close>. With \<open>\<alpha> = 0\<close>, and for a window of one value, the returned value
  lies in \<open>[lo, hi]\<close> itself. A constant window returns the constant up to the
  tolerance, not always the constant.
\<close>

theorem double_smoothing_near_range:
  assumes "0 \<le> \<alpha>" and "\<alpha> \<le> 1" and "smoothingBuffer c a \<noteq> []"
    and "\<forall>v \<in> set (smoothingBuffer c a). lo \<le> v \<and> v \<le> hi"
    and "(1 + 2 powr (- 50)) ^ (length (smoothingBuffer c a) - 1) *
           (max \<bar>lo\<bar> \<bar>hi\<bar> + 2 powr (- 1022)) \<le> 2 powr 998"
  shows "\<exists>r. calculateSmoothedValue_double c a \<alpha> = Some r \<and>
           \<bar>r - calculateSmoothedValue c a \<alpha>\<bar> \<le>
             blend_tolerance (length (smoothingBuffer c a)) (max \<bar>lo\<bar> \<bar>hi\<bar>) \<and>
           lo - blend_tolerance (length (smoothingBuffer c a)) (max \<bar>lo\<bar> \<bar>hi\<bar>) \<le> r \<and>
           r \<le> hi + blend_tolerance (length (smoothingBuffer c a)) (max \<bar>lo\<bar> \<bar>hi\<bar>) \<and>
           (\<alpha> = 0 \<or> length (smoothingBuffer c a) = 1 \<longrightarrow> lo \<le> r \<and> r \<le> hi) \<and>
           lo \<le> calculateSmoothedValue c a \<alpha> \<and> calculateSmoothedValue c a \<alpha> \<le> hi"
proof -
  define b where "b = max \<bar>lo\<bar> \<bar>hi\<bar>"
  define tol where "tol = blend_tolerance (length (smoothingBuffer c a)) b"
  obtain v0 vs where buf: "smoothingBuffer c a = v0 # vs"
    using assms(3) by (cases "smoothingBuffer c a") auto
  have bound: "\<forall>v \<in> set (v0 # vs). \<bar>v\<bar> \<le> b"
    using assms(4) unfolding buf b_def by auto
  have b0: "0 \<le> b" unfolding b_def by simp
  have tol0: "0 \<le> tol" unfolding tol_def by (rule blend_tolerance_nonneg [OF b0])
  have exact: "calculateSmoothedValue c a \<alpha> = spec_blend_fold \<alpha> v0 vs"
    by (rule calculateSmoothedValue_fold [OF buf])
  have range: "lo \<le> spec_blend_fold \<alpha> v0 vs \<and> spec_blend_fold \<alpha> v0 vs \<le> hi"
    using blend_fold_range [OF assms(1,2), of lo v0 hi vs] assms(4) buf by simp
  have near: "\<exists>r. calculateSmoothedValue_double c a \<alpha> = Some r \<and>
      \<bar>r - spec_blend_fold \<alpha> v0 vs\<bar> \<le> tol \<and>
      (\<alpha> = 0 \<or> length (smoothingBuffer c a) = 1 \<longrightarrow> r = spec_blend_fold \<alpha> v0 vs)"
  proof (cases "\<alpha> = 0")
    case True
    have "(v0 # vs) ! length vs = last (v0 # vs)" by (simp add: last_conv_nth)
    then have "calculateSmoothedValue_double c a \<alpha> = Some (spec_blend_fold \<alpha> v0 vs)"
      using True buf by (simp add: calculateSmoothedValue_double_def blend_zero_last)
    then show ?thesis using tol0 by simp
  next
    case False
    have cap: "(1 + 2 powr (- 50)) ^ (length (v0 # vs) - 1) * (0 + b + 2 powr (- 1022)) \<le> 2 powr 998"
      using assms(5) unfolding buf b_def by simp
    have v0b: "\<bar>v0\<bar> \<le> b" using bound by simp
    have same: "\<bar>v0 - v0\<bar> \<le> 0" by simp
    obtain r where r: "ema_loop_double \<alpha> (v0 # vs) 1 v0 = Some r"
      and rb: "\<bar>r - spec_blend_fold \<alpha> v0 (drop 1 (v0 # vs))\<bar> \<le>
          (1 + 2 powr (- 50)) ^ (length (v0 # vs) - 1) * (0 + b + 2 powr (- 1022)) -
          (b + 2 powr (- 1022))"
      using ema_loop_double_error [OF assms(1,2) bound v0b same cap] by blast
    have call: "calculateSmoothedValue_double c a \<alpha> = Some r"
      using False buf r by (simp add: calculateSmoothedValue_double_def)
    have "(1 + 2 powr (- 50)) ^ (length (v0 # vs) - 1) * (0 + b + 2 powr (- 1022)) -
          (b + 2 powr (- 1022)) = tol"
      unfolding tol_def blend_tolerance_def buf by (simp add: algebra_simps)
    then have close: "\<bar>r - spec_blend_fold \<alpha> v0 vs\<bar> \<le> tol" using rb by simp
    have single: "r = spec_blend_fold \<alpha> v0 vs" if "length (smoothingBuffer c a) = 1"
    proof -
      have "vs = []" using that buf by simp
      then have "tol = 0" unfolding tol_def blend_tolerance_def buf by simp
      then show ?thesis using close by simp
    qed
    show ?thesis using call close single False by blast
  qed
  then obtain r where r: "calculateSmoothedValue_double c a \<alpha> = Some r"
    and close: "\<bar>r - spec_blend_fold \<alpha> v0 vs\<bar> \<le> tol"
    and same: "\<alpha> = 0 \<or> length (smoothingBuffer c a) = 1 \<longrightarrow> r = spec_blend_fold \<alpha> v0 vs"
    by blast
  have "lo - tol \<le> r" "r \<le> hi + tol" using close range by linarith+
  moreover have "\<alpha> = 0 \<or> length (smoothingBuffer c a) = 1 \<longrightarrow> lo \<le> r \<and> r \<le> hi"
    using same range by auto
  ultimately show ?thesis
    using r close range unfolding exact tol_def b_def by blast
qed

theorem double_smoothing_near_range_witness:
  "(0 :: real) \<le> (3602879701896397 / 36028797018963968) \<and> ((3602879701896397 / 36028797018963968) :: real) \<le> 1 \<and>
   smoothingBuffer (initialController\<lparr>smoothingBuffer := (\<lambda>a. [(5404319552844595 / 18014398509481984), (5404319552844595 / 18014398509481984)])\<rparr>) X = [(5404319552844595 / 18014398509481984), (5404319552844595 / 18014398509481984)] \<and>
   calculateSmoothedValue_double
     (initialController\<lparr>smoothingBuffer := (\<lambda>a. [(5404319552844595 / 18014398509481984), (5404319552844595 / 18014398509481984)])\<rparr>) X (3602879701896397 / 36028797018963968) = Some (1351079888211149 / 4503599627370496) \<and>
   calculateSmoothedValue
     (initialController\<lparr>smoothingBuffer := (\<lambda>a. [(5404319552844595 / 18014398509481984), (5404319552844595 / 18014398509481984)])\<rparr>) X (3602879701896397 / 36028797018963968) = (5404319552844595 / 18014398509481984) \<and>
   \<bar>(1351079888211149 / 4503599627370496) - (5404319552844595 / 18014398509481984)\<bar> \<le> blend_tolerance 2 (5404319552844595 / 18014398509481984) \<and>
   (1351079888211149 / 4503599627370496) \<le> (5404319552844595 / 18014398509481984) + blend_tolerance 2 (5404319552844595 / 18014398509481984) \<and>
   blend_tolerance 2 (5404319552844595 / 18014398509481984) < 1 / 10 ^ 15"
proof -
  let ?c = "initialController\<lparr>smoothingBuffer := (\<lambda>a. [(5404319552844595 / 18014398509481984), (5404319552844595 / 18014398509481984)])\<rparr>"
  have buf: "smoothingBuffer ?c X = [(5404319552844595 / 18014398509481984), (5404319552844595 / 18014398509481984)]" by simp
  have exact: "calculateSmoothedValue ?c X (3602879701896397 / 36028797018963968) = (5404319552844595 / 18014398509481984)"
    by (simp add: calculateSmoothedValue_def ema_loop.simps)
  have range: "\<forall>v \<in> set (smoothingBuffer ?c X). (5404319552844595 / 18014398509481984) \<le> v \<and> v \<le> (5404319552844595 / 18014398509481984)"
    by simp
  have cap: "(1 + 2 powr (- 50)) ^ (length (smoothingBuffer ?c X) - 1) *
      (max \<bar>(5404319552844595 / 18014398509481984)\<bar> \<bar>(5404319552844595 / 18014398509481984)\<bar> + 2 powr (- 1022)) \<le> (2 :: real) powr 998"
  proof -
    have "(2::real) powr (- 50) \<le> 2 powr 0" by (intro powr_mono) simp_all
    then have a: "(1::real) + 2 powr (- 50) \<le> 2" by simp
    have "(2::real) powr (- 1022) \<le> 2 powr 0" by (intro powr_mono) simp_all
    then have b: "(5404319552844595 / 18014398509481984) + (2::real) powr (- 1022) \<le> 2" by simp
    have "(1 + 2 powr (- 50)) * ((5404319552844595 / 18014398509481984) + (2::real) powr (- 1022)) \<le> 2 * 2"
      using a b by (intro mult_mono) simp_all
    also have "\<dots> = 2 powr 2" by simp
    also have "\<dots> \<le> 2 powr 998" by (intro powr_mono) simp_all
    finally show ?thesis by simp
  qed
  obtain r where r: "calculateSmoothedValue_double ?c X (3602879701896397 / 36028797018963968) = Some r"
    and close: "\<bar>r - calculateSmoothedValue ?c X (3602879701896397 / 36028797018963968)\<bar> \<le>
        blend_tolerance (length (smoothingBuffer ?c X)) (max \<bar>(5404319552844595 / 18014398509481984)\<bar> \<bar>(5404319552844595 / 18014398509481984)\<bar>)"
    and upper: "r \<le> (5404319552844595 / 18014398509481984) + blend_tolerance (length (smoothingBuffer ?c X)) (max \<bar>(5404319552844595 / 18014398509481984)\<bar> \<bar>(5404319552844595 / 18014398509481984)\<bar>)"
    using double_smoothing_near_range [of "3602879701896397 / 36028797018963968" ?c X "5404319552844595 / 18014398509481984" "5404319552844595 / 18014398509481984", OF _ _ _ range cap] by auto
  have rt: "r = (1351079888211149 / 4503599627370496)" using r example_call by simp
  have len: "length (smoothingBuffer ?c X) = 2" by simp
  have mx: "max \<bar>(5404319552844595 / 18014398509481984) :: real\<bar> \<bar>(5404319552844595 / 18014398509481984)\<bar> = (5404319552844595 / 18014398509481984)" by simp
  have c2: "\<bar>(1351079888211149 / 4503599627370496) - (5404319552844595 / 18014398509481984)\<bar> \<le> blend_tolerance 2 (5404319552844595 / 18014398509481984)"
    using close unfolding rt exact len mx .
  have u2: "(1351079888211149 / 4503599627370496) \<le> (5404319552844595 / 18014398509481984) + blend_tolerance 2 (5404319552844595 / 18014398509481984)"
    using upper unfolding rt len mx .
  have a0: "(0 :: real) \<le> (3602879701896397 / 36028797018963968)" and a1: "((3602879701896397 / 36028797018963968) :: real) \<le> 1" by simp_all
  have small: "blend_tolerance 2 (5404319552844595 / 18014398509481984) < 1 / 10 ^ 15"
    by (simp add: blend_tolerance_def powr_neg_numeral)
  show ?thesis using a0 a1 buf example_call exact c2 u2 small by blast
qed

text \<open>
  Claim C10 as stated fails: on the constant window \<open>[0.3, 0.3]\<close> with the coefficient
  \<open>0.1\<close> (the doubles that these literals denote) the code returns
  \<open>1351079888211149 / 2 ^ 52\<close>, the double \<open>0.30000000000000004\<close>, which is above every
  value of the window.
\<close>

theorem constant_window_overshoots_in_doubles:
  "round_double (3 / 10) = Some (5404319552844595 / 18014398509481984) \<and>
   round_double (1 / 10) = Some (3602879701896397 / 36028797018963968) \<and>
   calculateSmoothedValue_double
     (initialController\<lparr>smoothingBuffer := (\<lambda>a. [(5404319552844595 / 18014398509481984), (5404319552844595 / 18014398509481984)])\<rparr>) X (3602879701896397 / 36028797018963968) = Some (1351079888211149 / 4503599627370496) \<and>
   \<not> ((1351079888211149 / 4503599627370496) :: real) \<le> (5404319552844595 / 18014398509481984)"
proof -
  have "\<not> ((1351079888211149 / 4503599627370496) :: real) \<le> (5404319552844595 / 18014398509481984)" by simp
  then show ?thesis using literal_03 literal_01 example_call by blast
qed

subsection \<open>Integration into the camera\<close>

text \<open>
  Claim C8. For every smoothed sample and every camera with a position and a target,
  \<open>applyMotionToCamera\<close> adds to each position component the translation axis times the
  speed \<open>5\<close> times the frame duration \<open>0.016\<close>, adds to each target component the rotation
  axis times the speed \<open>1\<close> times the same duration, and changes nothing else in the
  store: zoom and field of view stay as they were.
\<close>

theorem motion_integration_step:
  assumes "position (camera s) = Some (p0, p1, p2)"
    and "target (camera s) = Some (t0, t1, t2)"
  shows "applyMotionToCamera m s =
           Inr (s\<lparr>camera := (camera s)
                  \<lparr>position := Some (p0 + mx m * 5 * (16 / 1000),
                                     p1 + my m * 5 * (16 / 1000),
                                     p2 + mz m * 5 * (16 / 1000)),
                   target := Some (t0 + mrx m * 1 * (16 / 1000),
                                   t1 + mry m * 1 * (16 / 1000),
                                   t2 + mrz m * 1 * (16 / 1000))\<rparr>\<rparr>)"
  using assms
  by (simp add: applyMotionToCamera_def setCameraPosition_def setCameraTarget_def Let_def)

theorem motion_integration_step_witness:
  "position (camera initialState) = Some (0, 0, 10) \<and>
   target (camera initialState) = Some (0, 0, 0) \<and>
   applyMotionToCamera
     \<lparr>mx = 1, my = 0, mz = - 1, mrx = 1 / 2, mry = 0, mrz = 0, timestamp = 0\<rparr> initialState =
   Inr (initialState\<lparr>camera :=
     \<lparr>position = Some (2 / 25, 0, 248 / 25), target = Some (1 / 125, 0, 0),
      zoom = Some 1, fov = Some 75\<rparr>\<rparr>)"
  using motion_integration_step [of initialState 0 0 10 0 0 0
      "\<lparr>mx = 1, my = 0, mz = - 1, mrx = 1 / 2, mry = 0, mrz = 0, timestamp = 0\<rparr>"]
  by (simp add: initialState_def defaultCameraState_def)

subsection \<open>Dead zone, inversion and sensitivity\<close>



lemma applyDeadZoneToValue_abs:
  assumes "0 \<le> d" and "d < 1" and "d \<le> \<bar>v\<bar>"
  shows "\<bar>applyDeadZoneToValue d v\<bar> = (\<bar>v\<bar> - d) / (1 - d)"
proof -
  have "applyDeadZoneToValue d v = sgn v * ((\<bar>v\<bar> - d) / (1 - d))"
    using assms by (simp add: applyDeadZoneToValue_def Let_def)
  moreover have "0 \<le> (\<bar>v\<bar> - d) / (1 - d)" using assms by simp
  ultimately show ?thesis
    using assms by (cases "v = 0") (simp_all add: abs_mult abs_sgn_eq)
qed

lemma applyDeadZoneToValue_le_one:
  assumes "0 \<le> d" and "d < 1" and "\<bar>v\<bar> \<le> 1"
  shows "\<bar>applyDeadZoneToValue d v\<bar> \<le> 1"
proof (cases "\<bar>v\<bar> < d")
  case True
  then show ?thesis by (simp add: applyDeadZoneToValue_def)
next
  case False
  then have "\<bar>applyDeadZoneToValue d v\<bar> = (\<bar>v\<bar> - d) / (1 - d)"
    using applyDeadZoneToValue_abs [OF assms(1,2)] by simp
  moreover have "(\<bar>v\<bar> - d) / (1 - d) \<le> 1" using assms by (simp add: field_simps)
  ultimately show ?thesis by simp
qed

lemma applyDeadZoneToValue_ge:
  assumes "0 \<le> d" and "d < 1" and "1 \<le> \<bar>v\<bar>"
  shows "\<bar>v\<bar> \<le> \<bar>applyDeadZoneToValue d v\<bar>"
proof -
  have "\<bar>applyDeadZoneToValue d v\<bar> = (\<bar>v\<bar> - d) / (1 - d)"
    using applyDeadZoneToValue_abs [OF assms(1,2)] assms by simp
  moreover have "\<bar>v\<bar> \<le> (\<bar>v\<bar> - d) / (1 - d)"
  proof -
    have "d * 1 \<le> d * \<bar>v\<bar>" using assms by (intro mult_left_mono) simp_all
    then have "\<bar>v\<bar> * (1 - d) \<le> \<bar>v\<bar> - d" by (simp add: algebra_simps)
    then show ?thesis using assms by (simp add: pos_le_divide_eq)
  qed
  ultimately show ?thesis by simp
qed


lemma axis_value_processSample:
  "axis_value (processSample st m) a =
     (if inverted st a then applyDeadZoneToValue (deadZone st) (axis_value m a) * (- 1)
      else applyDeadZoneToValue (deadZone st) (axis_value m a)) * sensitivity st"
  by (cases a) (simp_all add: processSample_def applyDeadZone_def Let_def)

lemma timestamp_processSample: "timestamp (processSample st m) = timestamp m"
  by (simp add: processSample_def applyDeadZone_def Let_def)

lemma handleMotion_stores:
  "lastMotion (controller (handleMotion st m w)) = Some (processSample st m) \<and>
   motionBuffer (controller (handleMotion st m w)) \<noteq> [] \<and>
   last (motionBuffer (controller (handleMotion st m w))) = processSample st m"
proof -
  let ?b = "motionBuffer (controller w) @ [processSample st m]"
  show ?thesis
  proof (cases "length ?b > 10")
    case True
    then have "tl ?b \<noteq> []" by (cases ?b) auto
    moreover from this have "last (tl ?b) = last ?b" by (simp add: last_tl)
    ultimately show ?thesis using True by (simp add: handleMotion_def Let_def)
  next
    case False
    then show ?thesis by (simp add: handleMotion_def Let_def)
  qed
qed





text \<open>
  Claim C7, as the code has it. \<open>handleMotion\<close> rejects no sample and clamps none: the
  processed sample always becomes the newest entry of the motion buffer, and each of its
  axes has the magnitude of the dead-zone value times that of the sensitivity. For a
  dead-zone radius in \<open>[0, 1)\<close>, a raw axis within \<open>[-1, 1]\<close> gives a processed magnitude
  of at most \<open>\<bar>sensitivity\<bar>\<close>; a raw axis of magnitude \<open>1\<close> or more keeps at least
  its magnitude, times \<open>\<bar>sensitivity\<bar>\<close>.
\<close>

theorem samples_stored_unclamped:
  "lastMotion (controller (handleMotion st m w)) = Some (processSample st m) \<and>
   motionBuffer (controller (handleMotion st m w)) \<noteq> [] \<and>
   last (motionBuffer (controller (handleMotion st m w))) = processSample st m \<and>
   (0 \<le> deadZone st \<and> deadZone st < 1 \<longrightarrow>
      \<bar>axis_value (processSample st m) a\<bar> =
        \<bar>applyDeadZoneToValue (deadZone st) (axis_value m a)\<bar> * \<bar>sensitivity st\<bar>) \<and>
   (0 \<le> deadZone st \<and> deadZone st < 1 \<and> \<bar>axis_value m a\<bar> \<le> 1 \<longrightarrow>
      \<bar>axis_value (processSample st m) a\<bar> \<le> \<bar>sensitivity st\<bar>) \<and>
   (0 \<le> deadZone st \<and> deadZone st < 1 \<and> 1 \<le> \<bar>axis_value m a\<bar> \<longrightarrow>
      \<bar>axis_value m a\<bar> * \<bar>sensitivity st\<bar> \<le> \<bar>axis_value (processSample st m) a\<bar>)"
proof -
  let ?z = "applyDeadZoneToValue (deadZone st) (axis_value m a)"
  have mag: "\<bar>axis_value (processSample st m) a\<bar> = \<bar>?z\<bar> * \<bar>sensitivity st\<bar>"
    by (simp add: axis_value_processSample abs_mult)
  have small: "\<bar>?z\<bar> * \<bar>sensitivity st\<bar> \<le> \<bar>sensitivity st\<bar>"
    if "0 \<le> deadZone st" "deadZone st < 1" "\<bar>axis_value m a\<bar> \<le> 1"
  proof -
    have "\<bar>?z\<bar> \<le> 1" using applyDeadZoneToValue_le_one [OF that] .
    then have "\<bar>?z\<bar> * \<bar>sensitivity st\<bar> \<le> 1 * \<bar>sensitivity st\<bar>"
      by (intro mult_right_mono) simp_all
    then show ?thesis by simp
  qed
  have large: "\<bar>axis_value m a\<bar> * \<bar>sensitivity st\<bar> \<le> \<bar>?z\<bar> * \<bar>sensitivity st\<bar>"
    if "0 \<le> deadZone st" "deadZone st < 1" "1 \<le> \<bar>axis_value m a\<bar>"
    using applyDeadZoneToValue_ge [OF that] by (intro mult_right_mono) simp_all
  show ?thesis using handleMotion_stores [of st m w] mag small large by simp
qed

theorem samples_stored_unclamped_witness:
  "(0 :: real) \<le> deadZone defaultSpaceMouseSettings \<and> deadZone defaultSpaceMouseSettings < 1 \<and>
   \<bar>axis_value \<lparr>mx = 2, my = 1 / 2, mz = 0, mrx = 0, mry = 0, mrz = 0, timestamp = 7\<rparr> Y\<bar> \<le> 1 \<and>
   1 \<le> \<bar>axis_value \<lparr>mx = 2, my = 1 / 2, mz = 0, mrx = 0, mry = 0, mrz = 0, timestamp = 7\<rparr> X\<bar> \<and>
   last (motionBuffer (controller (handleMotion defaultSpaceMouseSettings
     \<lparr>mx = 2, my = 1 / 2, mz = 0, mrx = 0, mry = 0, mrz = 0, timestamp = 7\<rparr> initialWorld))) =
     \<lparr>mx = 19 / 9, my = 4 / 9, mz = 0, mrx = 0, mry = 0, mrz = 0, timestamp = 7\<rparr>"
  using samples_stored_unclamped [of defaultSpaceMouseSettings
      "\<lparr>mx = 2, my = 1 / 2, mz = 0, mrx = 0, mry = 0, mrz = 0, timestamp = 7\<rparr>" initialWorld X]
    samples_stored_unclamped [of defaultSpaceMouseSettings
      "\<lparr>mx = 2, my = 1 / 2, mz = 0, mrx = 0, mry = 0, mrz = 0, timestamp = 7\<rparr>" initialWorld Y]
  by (simp add: pipeline_eval Let_def)

text \<open>
  Claim C7 as stated fails: with the default settings a raw sample whose \<open>x\<close> axis is
  \<open>2\<close> is stored with the \<open>x\<close> axis \<open>19 / 9\<close>, outside \<open>[-1, 1]\<close>.
\<close>

theorem out_of_range_axis_not_clamped:
  "mx (last (motionBuffer (controller (handleMotion defaultSpaceMouseSettings
     \<lparr>mx = 2, my = 0, mz = 0, mrx = 0, mry = 0, mrz = 0, timestamp = 0\<rparr> initialWorld)))) = 19 / 9 \<and>
   \<not> \<bar>mx (last (motionBuffer (controller (handleMotion defaultSpaceMouseSettings
     \<lparr>mx = 2, my = 0, mz = 0, mrx = 0, mry = 0, mrz = 0, timestamp = 0\<rparr> initialWorld))))\<bar> \<le> 1"
  by (simp add: pipeline_eval Let_def)

end
